theory Spec2Isabelle
  imports Main
begin

section \<open>Go library functions used by the driver\<close>

text \<open>
  Go strings are byte sequences; they are modelled as \<^typ>\<open>string\<close> (a list of 8-bit
  characters).  The functions of this section belong to Go's standard library
  (packages \<^verbatim>\<open>strings\<close>, \<^verbatim>\<open>bufio\<close>, \<^verbatim>\<open>strconv\<close>, \<^verbatim>\<open>regexp\<close>) and to
  the two third-party packages the driver imports; they are modelled after their
  documented behaviour and keep their Go names.
\<close>

subsection \<open>Package strings\<close>

definition HasPrefix :: "string \<Rightarrow> string \<Rightarrow> bool" where
  "HasPrefix s pre = (take (length pre) s = pre)"

fun Contains :: "string \<Rightarrow> string \<Rightarrow> bool" where
  "Contains [] sub = (sub = [])"
| "Contains (c # cs) sub = (HasPrefix (c # cs) sub \<or> Contains cs sub)"

text \<open>\<^verbatim>\<open>strings.Index\<close>: the index of the first occurrence, or \<open>-1\<close>.\<close>

fun Index :: "string \<Rightarrow> string \<Rightarrow> int" where
  "Index [] sub = (if sub = [] then 0 else - 1)"
| "Index (c # cs) sub =
     (if HasPrefix (c # cs) sub then 0
      else (let r = Index cs sub in if r < 0 then - 1 else r + 1))"

text \<open>\<^verbatim>\<open>strings.Count\<close> with a separator of one byte, the only way the driver calls it.\<close>

definition Count :: "string \<Rightarrow> char \<Rightarrow> nat" where
  "Count s sep = length (filter (\<lambda>c. c = sep) s)"

text \<open>\<^verbatim>\<open>strings.Split\<close> with a separator of one byte: every occurrence splits, empty
  pieces are kept, and a string without the separator is its own only piece.\<close>

fun Split :: "string \<Rightarrow> char \<Rightarrow> string list" where
  "Split [] sep = [[]]"
| "Split (c # cs) sep =
     (if c = sep then [] # Split cs sep
      else (case Split cs sep of [] \<Rightarrow> [[c]] | l # ls \<Rightarrow> (c # l) # ls))"

text \<open>\<^verbatim>\<open>strings.TrimRight\<close>: drops every trailing byte that is in the cutset.\<close>

definition TrimRight :: "string \<Rightarrow> string \<Rightarrow> string" where
  "TrimRight s cutset = rev (dropWhile (\<lambda>c. c \<in> set cutset) (rev s))"

text \<open>
  \<^verbatim>\<open>strings.TrimSpace\<close> removes leading and trailing white space as Unicode defines it.
  On bytes these are the six ASCII spaces and the UTF-8 encodings of U+0085, U+00A0,
  U+1680, U+2000 to U+200A, U+2028, U+2029, U+202F, U+205F and U+3000.
\<close>

definition whiteSpace :: "string list" where
  "whiteSpace =
    [[CHR 0x09], [CHR 0x0A], [CHR 0x0B], [CHR 0x0C], [CHR 0x0D], [CHR 0x20],
     [CHR 0xC2, CHR 0x85], [CHR 0xC2, CHR 0xA0],
     [CHR 0xE1, CHR 0x9A, CHR 0x80],
     [CHR 0xE2, CHR 0x80, CHR 0x80], [CHR 0xE2, CHR 0x80, CHR 0x81],
     [CHR 0xE2, CHR 0x80, CHR 0x82], [CHR 0xE2, CHR 0x80, CHR 0x83],
     [CHR 0xE2, CHR 0x80, CHR 0x84], [CHR 0xE2, CHR 0x80, CHR 0x85],
     [CHR 0xE2, CHR 0x80, CHR 0x86], [CHR 0xE2, CHR 0x80, CHR 0x87],
     [CHR 0xE2, CHR 0x80, CHR 0x88], [CHR 0xE2, CHR 0x80, CHR 0x89],
     [CHR 0xE2, CHR 0x80, CHR 0x8A], [CHR 0xE2, CHR 0x80, CHR 0xA8],
     [CHR 0xE2, CHR 0x80, CHR 0xA9], [CHR 0xE2, CHR 0x80, CHR 0xAF],
     [CHR 0xE2, CHR 0x81, CHR 0x9F], [CHR 0xE3, CHR 0x80, CHR 0x80]]"

function trimPrefixes :: "string list \<Rightarrow> string \<Rightarrow> string" where
  "trimPrefixes ws s =
     (case List.find (\<lambda>w. w \<noteq> [] \<and> HasPrefix s w) ws of
        None \<Rightarrow> s
      | Some w \<Rightarrow> trimPrefixes ws (drop (length w) s))"
  by pat_completeness auto
termination
proof (relation "measure (\<lambda>(ws, s). length s)")
  show "wf (measure (\<lambda>(ws, s). length s))" by simp
next
  fix ws :: "string list" and s w :: string
  assume "List.find (\<lambda>w. w \<noteq> [] \<and> HasPrefix s w) ws = Some w"
  then have "w \<noteq> []" and "HasPrefix s w"
    by (auto simp: find_Some_iff)
  then have "s \<noteq> []"
    by (auto simp: HasPrefix_def)
  with \<open>w \<noteq> []\<close> show "((ws, drop (length w) s), (ws, s)) \<in> measure (\<lambda>(ws, s). length s)"
    by simp
qed

declare trimPrefixes.simps [simp del]

definition TrimSpace :: "string \<Rightarrow> string" where
  "TrimSpace s = rev (trimPrefixes (map rev whiteSpace) (rev (trimPrefixes whiteSpace s)))"

subsection \<open>Package regexp\<close>

text \<open>
  A regular expression of Go's syntax, as far as the driver's three patterns use it:
  literals, character classes, \<open>^\<close>, concatenation, alternation, \<open>?\<close>, greedy and
  lazy repetition, and capturing groups (numbered by their opening parenthesis; a
  non-capturing group \<open>(?:r)\<close> is just \<open>r\<close>).
\<close>

datatype regex =
    Lit string
  | Class string
  | NClass string
  | Bol
  | Seq regex regex
  | Alt regex regex
  | Opt regex
  | Star regex
  | LazyStar regex
  | Group nat regex

definition Plus :: "regex \<Rightarrow> regex" where
  "Plus r = Seq r (Star r)"

definition LazyPlus :: "regex \<Rightarrow> regex" where
  "LazyPlus r = Seq r (LazyStar r)"

text \<open>
  A matcher state is the position in the text, the rest of the text, and the groups
  captured so far.  \<open>rmatch r st\<close> lists the states in which a match of \<open>r\<close> from \<open>st\<close>
  can end, in the order a backtracking matcher tries them; Go's \<^verbatim>\<open>regexp\<close> returns
  the leftmost match, and among those the one a backtracking matcher finds first.
\<close>

type_synonym mstate = "nat \<times> string \<times> string option list"

fun rmatch :: "regex \<Rightarrow> mstate \<Rightarrow> mstate list" where
  "rmatch (Lit l) (p, s, c) =
     (if HasPrefix s l then [(p + length l, drop (length l) s, c)] else [])"
| "rmatch (Class cs) (p, s, c) =
     (case s of [] \<Rightarrow> [] | x # xs \<Rightarrow> if x \<in> set cs then [(Suc p, xs, c)] else [])"
| "rmatch (NClass cs) (p, s, c) =
     (case s of [] \<Rightarrow> [] | x # xs \<Rightarrow> if x \<in> set cs then [] else [(Suc p, xs, c)])"
| "rmatch Bol (p, s, c) = (if p = 0 then [(p, s, c)] else [])"
| "rmatch (Seq a b) (p, s, c) = concat (map (rmatch b) (rmatch a (p, s, c)))"
| "rmatch (Alt a b) (p, s, c) = rmatch a (p, s, c) @ rmatch b (p, s, c)"
| "rmatch (Opt a) (p, s, c) = rmatch a (p, s, c) @ [(p, s, c)]"
| "rmatch (Star a) (p, s, c) =
     concat (map (\<lambda>(p', s', c').
                    if length s' < length s then rmatch (Star a) (p', s', c') else [])
                 (rmatch a (p, s, c))) @ [(p, s, c)]"
| "rmatch (LazyStar a) (p, s, c) =
     (p, s, c) #
     concat (map (\<lambda>(p', s', c').
                    if length s' < length s then rmatch (LazyStar a) (p', s', c') else [])
                 (rmatch a (p, s, c)))"
| "rmatch (Group n a) (p, s, c) =
     map (\<lambda>(p', s', c'). (p', s', c'[n := Some (take (p' - p) s)])) (rmatch a (p, s, c))"

fun NumSubexp :: "regex \<Rightarrow> nat" where
  "NumSubexp (Seq a b) = NumSubexp a + NumSubexp b"
| "NumSubexp (Alt a b) = NumSubexp a + NumSubexp b"
| "NumSubexp (Opt a) = NumSubexp a"
| "NumSubexp (Star a) = NumSubexp a"
| "NumSubexp (LazyStar a) = NumSubexp a"
| "NumSubexp (Group n a) = Suc (NumSubexp a)"
| "NumSubexp r = 0"

text \<open>
  The search for the leftmost match: the pattern is tried at position 0, then 1, and
  so on up to the end of the text.  The result is the matched text followed by the
  text of each group (empty for a group that took no part), as
  \<^verbatim>\<open>FindStringSubmatch\<close> returns it; \<open>None\<close> is Go's nil slice.
\<close>

fun find_from :: "regex \<Rightarrow> nat \<Rightarrow> string \<Rightarrow> string list option" where
  "find_from re p s =
     (case rmatch (Group 0 re) (p, s, replicate (Suc (NumSubexp re)) None) of
        (p', s', c) # rest \<Rightarrow> Some (map (\<lambda>g. case g of None \<Rightarrow> [] | Some t \<Rightarrow> t) c)
      | [] \<Rightarrow> (case s of [] \<Rightarrow> None | x # xs \<Rightarrow> find_from re (Suc p) xs))"

definition FindStringSubmatch :: "regex \<Rightarrow> string \<Rightarrow> string list option" where
  "FindStringSubmatch re s = find_from re 0 s"

definition MatchString :: "regex \<Rightarrow> string \<Rightarrow> bool" where
  "MatchString re s = (FindStringSubmatch re s \<noteq> None)"

text \<open>
  What it means for an expression to match a word that starts at position \<open>p\<close> of the
  text, stated without a matcher.  An iteration of a repetition is not empty.
\<close>

inductive matches :: "regex \<Rightarrow> nat \<Rightarrow> string \<Rightarrow> bool" where
  Lit: "matches (Lit l) p l"
| Class: "x \<in> set cs \<Longrightarrow> matches (Class cs) p [x]"
| NClass: "x \<notin> set cs \<Longrightarrow> matches (NClass cs) p [x]"
| Bol: "matches Bol 0 []"
| Seq: "matches a p u \<Longrightarrow> matches b (p + length u) v \<Longrightarrow> matches (Seq a b) p (u @ v)"
| AltL: "matches a p w \<Longrightarrow> matches (Alt a b) p w"
| AltR: "matches b p w \<Longrightarrow> matches (Alt a b) p w"
| OptSome: "matches a p w \<Longrightarrow> matches (Opt a) p w"
| OptNone: "matches (Opt a) p []"
| StarNil: "matches (Star a) p []"
| StarCons: "matches a p u \<Longrightarrow> u \<noteq> [] \<Longrightarrow> matches (Star a) (p + length u) v
     \<Longrightarrow> matches (Star a) p (u @ v)"
| LazyStarNil: "matches (LazyStar a) p []"
| LazyStarCons: "matches a p u \<Longrightarrow> u \<noteq> [] \<Longrightarrow> matches (LazyStar a) (p + length u) v
     \<Longrightarrow> matches (LazyStar a) p (u @ v)"
| Group: "matches a p w \<Longrightarrow> matches (Group n a) p w"

text \<open>Expressions without a capturing group; matching them leaves the captured groups alone.\<close>

fun groupFree :: "regex \<Rightarrow> bool" where
  "groupFree (Seq a b) = (groupFree a \<and> groupFree b)"
| "groupFree (Alt a b) = (groupFree a \<and> groupFree b)"
| "groupFree (Opt a) = groupFree a"
| "groupFree (Star a) = groupFree a"
| "groupFree (LazyStar a) = groupFree a"
| "groupFree (Group n a) = False"
| "groupFree r = True"

section \<open>Running VBoxManage\<close>

text \<open>
  What \<^verbatim>\<open>cmd.Run()\<close> leaves behind: its error and the two captured buffers.  An
  \<open>ExitError\<close> is Go's \<^verbatim>\<open>*exec.ExitError\<close> (the process ran and did not exit with
  status zero); \<open>ExecError\<close> is any other error of \<^verbatim>\<open>Run\<close>, such as a binary that
  could not be started; \<open>Errorf\<close> is an error made by \<^verbatim>\<open>fmt.Errorf\<close>, with its
  message.  The operating system is a function from the binary's path and the
  arguments to such a result.
\<close>

datatype error = ExitError int | ExecError string | Errorf string

record cmd_result =
  run_err :: "error option"
  stdout :: string
  stderr :: string

type_synonym exec = "string \<Rightarrow> string list \<Rightarrow> cmd_result"

record VBox42Driver =
  VBoxManagePath :: string

text \<open>The pattern \<^verbatim>\<open>VBoxManage([.a-z]+?): error:\<close> of \<^verbatim>\<open>VBoxManageWithOutput\<close>.\<close>

definition errorBannerRe :: regex where
  "errorBannerRe =
     Seq (Lit ''VBoxManage'')
       (Seq (Group 1 (LazyPlus (Class ''.abcdefghijklmnopqrstuvwxyz'')))
            (Lit '': error:''))"

definition VBoxManageWithOutput :: "exec \<Rightarrow> VBox42Driver \<Rightarrow> string list \<Rightarrow> string \<times> error option" where
  "VBoxManageWithOutput ex d args =
     (let r = ex (VBoxManagePath d) args;
          stdoutString = TrimSpace (stdout r);
          stderrString = TrimSpace (stderr r);
          err = (case run_err r of
                   Some (ExitError code) \<Rightarrow> Some (Errorf (''VBoxManage error: '' @ stderrString))
                 | e \<Rightarrow> e);
          err = (if err = None
                 then (if MatchString errorBannerRe stderrString
                       then Some (Errorf (''VBoxManage error: '' @ stderrString))
                       else err)
                 else err)
      in (stdoutString, err))"

definition VBoxManage :: "exec \<Rightarrow> VBox42Driver \<Rightarrow> string list \<Rightarrow> error option" where
  "VBoxManage ex d args = snd (VBoxManageWithOutput ex d args)"


section \<open>The version of VirtualBox\<close>

text \<open>The pattern \<^verbatim>\<open>^([.0-9]+)(?:_(?:RC|OSEr)[0-9]+)?\<close> of \<^verbatim>\<open>Version\<close>.\<close>

definition versionRe :: regex where
  "versionRe =
     Seq Bol
       (Seq (Group 1 (Plus (Class ''.0123456789'')))
            (Opt (Seq (Lit ''_'')
                 (Seq (Alt (Lit ''RC'') (Lit ''OSEr''))
                      (Plus (Class ''0123456789''))))))"

text \<open>
  \<^verbatim>\<open>Version\<close> runs the binary itself and captures standard output only.
  \<^verbatim>\<open>FindAllStringSubmatch(versionOutput, 1)\<close> holds at most the first match, so
  \<^verbatim>\<open>matches[0]\<close> is what \<open>FindStringSubmatch\<close> finds.
\<close>

definition Version :: "exec \<Rightarrow> VBox42Driver \<Rightarrow> string \<times> error option" where
  "Version ex d =
     (let r = ex (VBoxManagePath d) [''--version''] in
      case run_err r of
        Some e \<Rightarrow> ([], Some e)
      | None \<Rightarrow>
          (let versionOutput = TrimSpace (stdout r) in
           if Contains versionOutput ''vboxdrv''
           then ([], Some (Errorf (''VirtualBox is not properly setup: '' @ versionOutput)))
           else (case FindStringSubmatch versionRe versionOutput of
                   Some [m0, m1] \<Rightarrow> (m1, None)
                 | _ \<Rightarrow> ([], Some (Errorf (''No version found: '' @ versionOutput))))))"

text \<open>
  In the words of the spec, the version is the leading dotted-numeric run of the output:
  its longest prefix of digits and dots.
\<close>

definition leadingRun :: "string \<Rightarrow> string" where
  "leadingRun s = takeWhile (\<lambda>c. c \<in> set ''.0123456789'') s"

subsection \<open>Package go-version\<close>

text \<open>
  Modelled from the spec: the package \<^verbatim>\<open>github.com/hashicorp/go-version\<close>
  (\<^verbatim>\<open>NewVersion\<close>, \<^verbatim>\<open>LessThan\<close>) is a dependency whose code is not among the
  sources.  The spec says that versions compare numerically, dot segment by dot
  segment.  A version is its list of numeric segments, padded with zeros to three
  segments; a segment must be a non-empty run of digits that fits a signed 64-bit
  integer (\<^verbatim>\<open>int64\<close>, here an \<^typ>\<open>int\<close> checked against the bound).  The
  model covers texts of digits and dots, which is all the driver passes (the constant
  \<^verbatim>\<open>"4.3"\<close> and what \<open>versionRe\<close> captured).
\<close>

definition isDigit :: "char \<Rightarrow> bool" where
  "isDigit c = (c \<in> set ''0123456789'')"

definition parseDecimal :: "string \<Rightarrow> int" where
  "parseDecimal s = foldl (\<lambda>a c. 10 * a + (of_char c - 48)) 0 s"

definition padSegments :: "int list \<Rightarrow> int list" where
  "padSegments segs = segs @ replicate (3 - length segs) 0"

definition NewVersion :: "string \<Rightarrow> error + int list" where
  "NewVersion v =
     (let segmentsStr = Split v (CHR ''.'') in
      if list_all (\<lambda>str. str \<noteq> [] \<and> list_all isDigit str) segmentsStr
      then (if list_all (\<lambda>str. parseDecimal str \<le> 9223372036854775807) segmentsStr
            then Inr (padSegments (map parseDecimal segmentsStr))
            else Inl (Errorf (''Error parsing version: '' @ v)))
      else Inl (Errorf (''Malformed version: '' @ v)))"

fun Compare :: "int list \<Rightarrow> int list \<Rightarrow> int" where
  "Compare [] [] = 0"
| "Compare [] (y # ys) = (if list_all (\<lambda>n. n = 0) (y # ys) then 0 else - 1)"
| "Compare (x # xs) [] = (if list_all (\<lambda>n. n = 0) (x # xs) then 0 else 1)"
| "Compare (x # xs) (y # ys) =
     (if x = y then Compare xs ys else if x < y then - 1 else 1)"

definition LessThan :: "int list \<Rightarrow> int list \<Rightarrow> bool" where
  "LessThan v other = (Compare v other < 0)"

subsection \<open>Package strconv\<close>

function decimal :: "nat \<Rightarrow> string" where
  "decimal n =
     (if n < 10 then [char_of (48 + n)]
      else decimal (n div 10) @ [char_of (48 + n mod 10)])"
  by pat_completeness auto
termination
  by (relation "measure (\<lambda>n. n)") auto

declare decimal.simps [simp del]

definition Itoa :: "int \<Rightarrow> string" where
  "Itoa i = (if i < 0 then CHR ''-'' # decimal (nat (- i)) else decimal (nat i))"

section \<open>Storage controllers\<close>

text \<open>
  \<^verbatim>\<open>CreateSATAController\<close> in two steps, so that the command it composes can be
  stated: \<open>sataCommand\<close> is the function up to its last statement and yields the
  error of an early return or the command; \<open>CreateSATAController\<close> runs the command.
\<close>

definition sataCommand ::
  "exec \<Rightarrow> VBox42Driver \<Rightarrow> string \<Rightarrow> string \<Rightarrow> int \<Rightarrow> error + string list" where
  "sataCommand ex d vmName name portcount =
     (case Version ex d of
        (version, Some err) \<Rightarrow> Inl err
      | (version, None) \<Rightarrow>
          (case NewVersion version of
             Inl err \<Rightarrow> Inl err
           | Inr currentVersion \<Rightarrow>
               (case NewVersion ''4.3'' of
                  Inl err \<Rightarrow> Inl err
                | Inr firstVersionUsingPortCount \<Rightarrow>
                    (let portCountArg =
                           (if LessThan currentVersion firstVersionUsingPortCount
                            then ''--sataportcount'' else ''--portcount'')
                     in Inr [''storagectl'', vmName,
                             ''--name'', name,
                             ''--add'', ''sata'',
                             portCountArg, Itoa portcount]))))"

definition CreateSATAController ::
  "exec \<Rightarrow> VBox42Driver \<Rightarrow> string \<Rightarrow> string \<Rightarrow> int \<Rightarrow> error option" where
  "CreateSATAController ex d vmName name portcount =
     (case sataCommand ex d vmName name portcount of
        Inl err \<Rightarrow> Some err
      | Inr command \<Rightarrow> VBoxManage ex d command)"

section \<open>The running state\<close>

text \<open>The loop of \<^verbatim>\<open>IsRunning\<close> over the lines of the output.\<close>

fun isRunningLines :: "string list \<Rightarrow> bool" where
  "isRunningLines [] = False"
| \<open>isRunningLines (l # rest) =
     (let line = TrimRight l [CHR 0x0D] in
      if line = ''VMState="running"'' then True
      else if line = ''VMState="stopping"'' then True
      else if line = ''VMState="paused"'' then True
      else isRunningLines rest)\<close>

definition IsRunning :: "exec \<Rightarrow> VBox42Driver \<Rightarrow> string \<Rightarrow> bool \<times> error option" where
  "IsRunning ex d name =
     (let r = ex (VBoxManagePath d) [''showvminfo'', name, ''--machinereadable''] in
      case run_err r of
        Some err \<Rightarrow> (False, Some err)
      | None \<Rightarrow> (isRunningLines (Split (stdout r) (CHR 0x0A)), None))"


section \<open>Snapshots\<close>

subsection \<open>Package bufio\<close>

text \<open>
  The lines a \<^verbatim>\<open>bufio.Scanner\<close> yields for a text: the pieces between newlines,
  without a final empty piece, each without one trailing carriage return.  The scanner
  gives up at a line that does not fit its buffer of 64 KiB; the driver does not look
  at the scanner's error, so the lines before it are all it sees.
\<close>

definition dropCR :: "string \<Rightarrow> string" where
  "dropCR l = (if l \<noteq> [] \<and> last l = CHR 0x0D then butlast l else l)"

definition ScanLines :: "string \<Rightarrow> string list" where
  "ScanLines s =
     (let ls = Split s (CHR 0x0A);
          ls = (if last ls = [] then butlast ls else ls)
      in map dropCR (takeWhile (\<lambda>l. length l < 65536) ls))"

subsection \<open>Package stack\<close>

text \<open>
  The stack of \<^verbatim>\<open>github.com/golang-collections/collections/stack\<close>, top first.
  \<^verbatim>\<open>Pop\<close> leaves an empty stack as it is, and \<^verbatim>\<open>Peek\<close> on an empty stack returns
  the nil interface (\<open>None\<close>).
\<close>

definition Push :: "'a \<Rightarrow> 'a list \<Rightarrow> 'a list" where
  "Push v stk = v # stk"

definition Pop :: "'a list \<Rightarrow> 'a list" where
  "Pop stk = (case stk of [] \<Rightarrow> [] | v # rest \<Rightarrow> rest)"

definition Peek :: "'a list \<Rightarrow> 'a option" where
  "Peek stk = (case stk of [] \<Rightarrow> None | v # rest \<Rightarrow> Some v)"

subsection \<open>The snapshot tree\<close>

text \<open>
  The parser builds the tree through pointers: it keeps a pointer to the node it made
  last and pointers to its ancestors on a stack, and writes to the nodes behind them.
  So the nodes live in a store, a list indexed by address; a pointer is an address, or
  \<open>None\<close> for nil.  Of the fields of \<^verbatim>\<open>VBoxSnapshot\<close> (declared outside these
  sources) the driver uses the four below.
\<close>

record VBoxSnapshot =
  Name :: string
  UUID :: string
  IsCurrent :: bool
  Children :: "nat list"

type_synonym store = "VBoxSnapshot list"
type_synonym pointer = "nat option"

definition newVBoxSnapshot :: VBoxSnapshot where
  "newVBoxSnapshot = \<lparr>Name = [], UUID = [], IsCurrent = False, Children = []\<rparr>"

datatype panic = Panic string

text \<open>
  The pattern
  \<^verbatim>\<open>Snapshot(?P<Type>Name|UUID)(?P<Path>(-[1-9]+)*)="(?P<Value>[^"]*)"\<close>.
\<close>

definition SnapshotNamePartsRe :: regex where
  \<open>SnapshotNamePartsRe =
     Seq (Lit ''Snapshot'')
       (Seq (Group 1 (Alt (Lit ''Name'') (Lit ''UUID'')))
       (Seq (Group 2 (Star (Group 3 (Seq (Lit ''-'') (Plus (Class ''123456789''))))))
       (Seq (Lit ''="'')
       (Seq (Group 4 (Star (NClass ''"'')))
            (Lit ''"'')))))\<close>

text \<open>The variables of the loop of \<^verbatim>\<open>LoadSnapshots\<close>, and the store.\<close>

record parser =
  heap :: store
  rootNode :: pointer
  node :: pointer
  currentIndicator :: string
  parentStack :: "pointer list"

definition initParser :: parser where
  "initParser =
     \<lparr>heap = [], rootNode = None, node = None, currentIndicator = [], parentStack = []\<rparr>"

text \<open>\<^verbatim>\<open>for i := 0; i < pathLenCur-1; i++ { parentStack.Pop() }\<close>\<close>

function popLoop :: "int \<Rightarrow> int \<Rightarrow> pointer list \<Rightarrow> pointer list" where
  "popLoop i n stk = (if i < n then popLoop (i + 1) n (Pop stk) else stk)"
  by pat_completeness auto
termination
  by (relation "measure (\<lambda>(i, n, stk). nat (n - i))") auto

declare popLoop.simps [simp del]

text \<open>
  The branch \<^verbatim>\<open>matches[1] == "Name"\<close>, with \<open>path\<close> for \<^verbatim>\<open>matches[2]\<close> and
  \<open>val\<close> for \<^verbatim>\<open>matches[4]\<close>.  The type assertion on what \<^verbatim>\<open>Peek\<close> returns
  panics on the nil interface of an empty stack.
\<close>

definition nameRecord :: "string \<Rightarrow> string \<Rightarrow> parser \<Rightarrow> panic + parser" where
  "nameRecord path val st =
     (if rootNode st = None
      then (let n = length (heap st) in
            Inr (st\<lparr>heap := heap st @ [newVBoxSnapshot\<lparr>Name := val\<rparr>],
                    rootNode := Some n, node := Some n, currentIndicator := path\<rparr>))
      else
        (let pathLenCur = int (Count (currentIndicator st) (CHR ''-''));
             pathLen = int (Count path (CHR ''-''));
             st1 = (if pathLen > pathLenCur
                    then st\<lparr>currentIndicator := path,
                            parentStack := Push (node st) (parentStack st)\<rparr>
                    else if pathLen < pathLenCur
                    then st\<lparr>parentStack := popLoop 0 (pathLenCur - 1) (parentStack st)\<rparr>
                    else st);
             n = length (heap st1)
         in case Peek (parentStack st1) of
              None \<Rightarrow> Inl (Panic ''interface conversion: interface is nil, not *VBoxSnapshot'')
            | Some parent \<Rightarrow>
                (let h = heap st1 @ [newVBoxSnapshot];
                     h = (case parent of
                            None \<Rightarrow> h
                          | Some p \<Rightarrow> h[p := (h ! p)\<lparr>Children := Children (h ! p) @ [n]\<rparr>]);
                     h = h[n := (h ! n)\<lparr>Name := val\<rparr>]
                 in Inr (st1\<lparr>heap := h, node := Some n\<rparr>))))"

text \<open>
  The body of the loop for one line.  Writing through the nil pointer \<open>node\<close> panics,
  and so does indexing the nil slice that \<^verbatim>\<open>FindStringSubmatch\<close> returns for a line
  without a match.
\<close>

definition scanLine :: "string \<Rightarrow> parser \<Rightarrow> panic + parser" where
  "scanLine txt st =
     (if Index txt ''='' > 0
      then (if HasPrefix txt ''Current''
            then (case node st of
                    None \<Rightarrow> Inl (Panic ''invalid memory address or nil pointer dereference'')
                  | Some n \<Rightarrow>
                      Inr (st\<lparr>heap := (heap st)[n := (heap st ! n)\<lparr>IsCurrent := True\<rparr>]\<rparr>))
            else (case FindStringSubmatch SnapshotNamePartsRe txt of
                    Some [m0, m1, m2, m3, m4] \<Rightarrow>
                      (if m1 = ''Name'' then nameRecord m2 m4 st
                       else if m1 = ''UUID''
                       then (case node st of
                               None \<Rightarrow> Inl (Panic ''invalid memory address or nil pointer dereference'')
                             | Some n \<Rightarrow>
                                 Inr (st\<lparr>heap := (heap st)[n := (heap st ! n)\<lparr>UUID := m4\<rparr>]\<rparr>))
                       else Inr st)
                  | _ \<Rightarrow> Inl (Panic ''index out of range'')))
      else Inr st)"

fun parseLines :: "string list \<Rightarrow> parser \<Rightarrow> panic + parser" where
  "parseLines [] st = Inr st"
| "parseLines (txt # rest) st =
     (case scanLine txt st of
        Inl p \<Rightarrow> Inl p
      | Inr st' \<Rightarrow> parseLines rest st')"

text \<open>
  A \<^verbatim>\<open>*VBoxSnapshot\<close> handed to or from the driver is a pointer together with the
  store it points into.
\<close>

type_synonym snapshot = "store \<times> pointer"

definition LoadSnapshots ::
  "exec \<Rightarrow> VBox42Driver \<Rightarrow> string \<Rightarrow> panic + (snapshot \<times> error option)" where
  "LoadSnapshots ex d vmName =
     (if vmName = [] then Inl (Panic ''Argument empty exception: vmName'')
      else
        (case VBoxManageWithOutput ex d [''snapshot'', vmName, ''list'', ''--machinereadable''] of
           (stdoutString, Some err) \<Rightarrow> Inr (([], None), Some err)
         | (stdoutString, None) \<Rightarrow>
             (if stdoutString \<noteq> ''This machine does not have any snapshots''
              then (case parseLines (ScanLines stdoutString) initParser of
                      Inl p \<Rightarrow> Inl p
                    | Inr st \<Rightarrow> Inr ((heap st, rootNode st), None))
              else Inr (([], None), None))))"

definition CreateSnapshot ::
  "exec \<Rightarrow> VBox42Driver \<Rightarrow> string \<Rightarrow> string \<Rightarrow> panic + error option" where
  "CreateSnapshot ex d vmname snapshotName =
     (if vmname = [] then Inl (Panic ''Argument empty exception: vmname'')
      else Inr (VBoxManage ex d [''snapshot'', vmname, ''take'', snapshotName]))"

definition HasSnapshots ::
  "exec \<Rightarrow> VBox42Driver \<Rightarrow> string \<Rightarrow> panic + (bool \<times> error option)" where
  "HasSnapshots ex d vmname =
     (if vmname = [] then Inl (Panic ''Argument empty exception: vmname'')
      else (case LoadSnapshots ex d vmname of
              Inl p \<Rightarrow> Inl p
            | Inr (sn, Some err) \<Rightarrow> Inr (False, Some err)
            | Inr (sn, None) \<Rightarrow> Inr (snd sn \<noteq> None, None)))"

text \<open>
  The method \<^verbatim>\<open>(*VBoxSnapshot).GetCurrentSnapshot\<close> is declared outside these
  sources; it is the parameter \<open>getCurrent\<close>.
\<close>

definition GetCurrentSnapshot ::
  "(snapshot \<Rightarrow> panic + pointer) \<Rightarrow> exec \<Rightarrow> VBox42Driver \<Rightarrow> string
     \<Rightarrow> panic + (snapshot \<times> error option)" where
  "GetCurrentSnapshot getCurrent ex d vmname =
     (if vmname = [] then Inl (Panic ''Argument empty exception: vmname'')
      else (case LoadSnapshots ex d vmname of
              Inl p \<Rightarrow> Inl p
            | Inr (sn, Some err) \<Rightarrow> Inr (([], None), Some err)
            | Inr (sn, None) \<Rightarrow>
                (case getCurrent sn of
                   Inl p \<Rightarrow> Inl p
                 | Inr cur \<Rightarrow> Inr ((fst sn, cur), None))))"

definition SetSnapshot ::
  "exec \<Rightarrow> VBox42Driver \<Rightarrow> string \<Rightarrow> snapshot \<Rightarrow> panic + error option" where
  "SetSnapshot ex d vmname sn =
     (if vmname = [] then Inl (Panic ''Argument empty exception: vmname'')
      else (case snd sn of
              None \<Rightarrow> Inl (Panic ''Argument null exception: sn'')
            | Some a \<Rightarrow>
                Inr (VBoxManage ex d [''snapshot'', vmname, ''restore'', UUID (fst sn ! a)])))"

definition DeleteSnapshot ::
  "exec \<Rightarrow> VBox42Driver \<Rightarrow> string \<Rightarrow> snapshot \<Rightarrow> panic + error option" where
  "DeleteSnapshot ex d vmname sn =
     (if vmname = [] then Inl (Panic ''Argument empty exception: vmname'')
      else (case snd sn of
              None \<Rightarrow> Inl (Panic ''Argument null exception: sn'')
            | Some a \<Rightarrow>
                Inr (VBoxManage ex d [''snapshot'', vmname, ''delete'', UUID (fst sn ! a)])))"


section \<open>Example runs\<close>

text \<open>
  Environments for the examples below: a driver, and an operating system that answers
  every command with the same result.
\<close>

definition exampleDriver :: VBox42Driver where
  "exampleDriver = \<lparr>VBoxManagePath = ''VBoxManage''\<rparr>"

definition answering :: "cmd_result \<Rightarrow> exec" where
  "answering r = (\<lambda>path args. r)"

definition exited :: "string \<Rightarrow> string \<Rightarrow> cmd_result" where
  "exited out err = \<lparr>run_err = None, stdout = out, stderr = err\<rparr>"

definition failedStart :: cmd_result where
  "failedStart =
     \<lparr>run_err = Some (ExecError ''fork/exec VBoxManage: no such file or directory''),
      stdout = [], stderr = []\<rparr>"


text \<open>Two outputs of \<^verbatim>\<open>showvminfo --machinereadable\<close>, the first with Windows line ends.\<close>

definition pausedInfo :: string where
  \<open>pausedInfo =
     ''name="vm"'' @ [CHR 0x0D, CHR 0x0A] @ ''VMState="paused"'' @ [CHR 0x0D, CHR 0x0A]\<close>

definition poweroffInfo :: string where
  \<open>poweroffInfo = ''name="vm"'' @ [CHR 0x0A] @ ''VMState="poweroff"'' @ [CHR 0x0A]\<close>

text \<open>The listing of a machine without snapshots.\<close>

definition noSnapshots :: string where
  "noSnapshots = ''This machine does not have any snapshots'' @ [CHR 0x0A]"

text \<open>The same listing from a command that exits with status 1.\<close>

definition noSnapshotsExit1 :: cmd_result where
  "noSnapshotsExit1 = \<lparr>run_err = Some (ExitError 1), stdout = noSnapshots, stderr = []\<rparr>"

text \<open>
  A listing of a chain of four snapshots and the state of the parser after it, and a
  listing in which the root has a second child after a grandchild.
\<close>

definition treeLines :: "string list" where
  \<open>treeLines =
     [''SnapshotName="a"'', ''SnapshotUUID="u0"'',
      ''SnapshotName-1="b"'', ''SnapshotUUID-1="u1"'',
      ''SnapshotName-1-1="c"'', ''SnapshotUUID-1-1="u2"'',
      ''SnapshotName-1-1-1="d"'', ''SnapshotUUID-1-1-1="u3"'']\<close>

definition treeParser :: parser where
  "treeParser =
     \<lparr>heap = [\<lparr>Name = ''a'', UUID = ''u0'', IsCurrent = False, Children = [1]\<rparr>,
              \<lparr>Name = ''b'', UUID = ''u1'', IsCurrent = False, Children = [2]\<rparr>,
              \<lparr>Name = ''c'', UUID = ''u2'', IsCurrent = False, Children = [3]\<rparr>,
              \<lparr>Name = ''d'', UUID = ''u3'', IsCurrent = False, Children = []\<rparr>],
      rootNode = Some 0, node = Some 3, currentIndicator = ''-1-1-1'',
      parentStack = [Some 2, Some 1, Some 0]\<rparr>"

definition siblingLines :: "string list" where
  \<open>siblingLines =
     [''SnapshotName="a"'', ''SnapshotName-1="b"'', ''SnapshotName-1-1="c"'',
      ''SnapshotName-2="d"'']\<close>

definition siblingParser :: parser where
  "siblingParser =
     \<lparr>heap = [\<lparr>Name = ''a'', UUID = [], IsCurrent = False, Children = [1, 3]\<rparr>,
              \<lparr>Name = ''b'', UUID = [], IsCurrent = False, Children = [2]\<rparr>,
              \<lparr>Name = ''c'', UUID = [], IsCurrent = False, Children = []\<rparr>,
              \<lparr>Name = ''d'', UUID = [], IsCurrent = False, Children = []\<rparr>],
      rootNode = Some 0, node = Some 3, currentIndicator = ''-1-1'',
      parentStack = [Some 0]\<rparr>"

section \<open>Evaluations used by the examples\<close>

lemma TrimSpace_empty: "TrimSpace [] = []"
  by code_simp

lemma TrimSpace_out: "TrimSpace (''out'' @ [CHR 0x0A]) = ''out''"
  by code_simp

lemma TrimSpace_banner:
  "TrimSpace (''VBoxManage.exe: error: boom'' @ [CHR 0x0A]) = ''VBoxManage.exe: error: boom''"
  by code_simp

lemma MatchString_banner: "MatchString errorBannerRe ''VBoxManage.exe: error: boom''"
  by code_simp

lemma TrimSpace_warning:
  "TrimSpace (''warning: slow disk'' @ [CHR 0x0A]) = ''warning: slow disk''"
  by code_simp

lemma MatchString_warning: "\<not> MatchString errorBannerRe ''warning: slow disk''"
  by code_simp

lemma TrimSpace_no_machine:
  "TrimSpace (''VBoxManage: error: no such machine'' @ [CHR 0x0A])
     = ''VBoxManage: error: no such machine''"
  by code_simp

lemma Split_pausedInfo:
  \<open>Split pausedInfo (CHR 0x0A) = [''name="vm"'' @ [CHR 0x0D], ''VMState="paused"'' @ [CHR 0x0D], []]\<close>
  by code_simp

lemma Split_poweroffInfo:
  \<open>Split poweroffInfo (CHR 0x0A) = [''name="vm"'', ''VMState="poweroff"'', []]\<close>
  by code_simp

lemma TrimRight_examples:
  \<open>TrimRight (''name="vm"'' @ [CHR 0x0D]) [CHR 0x0D] = ''name="vm"''\<close>
  \<open>TrimRight (''VMState="paused"'' @ [CHR 0x0D]) [CHR 0x0D] = ''VMState="paused"''\<close>
  \<open>TrimRight ''name="vm"'' [CHR 0x0D] = ''name="vm"''\<close>
  \<open>TrimRight ''VMState="poweroff"'' [CHR 0x0D] = ''VMState="poweroff"''\<close>
  \<open>TrimRight [] [CHR 0x0D] = []\<close>
  by code_simp+

lemma TrimSpace_noSnapshots: "TrimSpace noSnapshots = ''This machine does not have any snapshots''"
  by code_simp

lemma MatchString_empty: "\<not> MatchString errorBannerRe []"
  by code_simp

lemma unmatched_examples:
  \<open>0 < Index ''SnapshotDescription-1="x"'' ''=''\<close>
  \<open>\<not> HasPrefix ''SnapshotDescription-1="x"'' ''Current''\<close>
  \<open>FindStringSubmatch SnapshotNamePartsRe ''SnapshotDescription-1="x"'' = None\<close>
  \<open>0 < Index ''SnapshotName-10="x"'' ''=''\<close>
  \<open>\<not> HasPrefix ''SnapshotName-10="x"'' ''Current''\<close>
  \<open>FindStringSubmatch SnapshotNamePartsRe ''SnapshotName-10="x"'' = None\<close>
  \<open>Index ''no separator'' ''='' \<le> 0\<close>
  by code_simp+

lemma Version_examples:
  "TrimSpace (''4.3.0_RC1'' @ [CHR 0x0A]) = ''4.3.0_RC1''"
  "\<not> Contains (''4.3.0_RC1'' @ [CHR 0x0A]) ''vboxdrv''"
  "leadingRun ''4.3.0_RC1'' = ''4.3.0''"
  "TrimSpace (''4.3.0 vboxdrv is not loaded'' @ [CHR 0x0A]) = ''4.3.0 vboxdrv is not loaded''"
  "Contains (''4.3.0 vboxdrv is not loaded'' @ [CHR 0x0A]) ''vboxdrv''"
  "leadingRun ''4.3.0 vboxdrv is not loaded'' = ''4.3.0''"
  "TrimSpace (''unknown'' @ [CHR 0x0A]) = ''unknown''"
  "\<not> Contains (''unknown'' @ [CHR 0x0A]) ''vboxdrv''"
  "leadingRun ''unknown'' = []"
  by code_simp+

lemma sata_examples:
  "Version (answering (exited (''4.2.99'' @ [CHR 0x0A]) [])) exampleDriver = (''4.2.99'', None)"
  "NewVersion ''4.2.99'' = Inr [4, 2, 99]"
  "Version (answering (exited (''4.3.0'' @ [CHR 0x0A]) [])) exampleDriver = (''4.3.0'', None)"
  "NewVersion ''4.3.0'' = Inr [4, 3, 0]"
  "Version (answering (exited (''5.1.2'' @ [CHR 0x0A]) [])) exampleDriver = (''5.1.2'', None)"
  "NewVersion ''5.1.2'' = Inr [5, 1, 2]"
  "Itoa 30 = ''30''"
  by code_simp+

lemma parseLines_treeLines: "parseLines treeLines initParser = Inr treeParser"
  by code_simp

lemma pop_examples:
  \<open>0 < Index ''SnapshotName-2="e"'' ''=''\<close>
  \<open>\<not> HasPrefix ''SnapshotName-2="e"'' ''Current''\<close>
  \<open>FindStringSubmatch SnapshotNamePartsRe ''SnapshotName-2="e"''
     = Some [''SnapshotName-2="e"'', ''Name'', ''-2'', ''-2'', ''e'']\<close>
  \<open>Count ''-2'' (CHR ''-'') < Count (currentIndicator treeParser) (CHR ''-'')\<close>
  \<open>0 < Index ''SnapshotName-1-2="e"'' ''=''\<close>
  \<open>\<not> HasPrefix ''SnapshotName-1-2="e"'' ''Current''\<close>
  \<open>FindStringSubmatch SnapshotNamePartsRe ''SnapshotName-1-2="e"''
     = Some [''SnapshotName-1-2="e"'', ''Name'', ''-1-2'', ''-2'', ''e'']\<close>
  \<open>Count ''-1-2'' (CHR ''-'') < Count (currentIndicator treeParser) (CHR ''-'')\<close>
  \<open>rootNode treeParser \<noteq> None\<close>
  by code_simp+

lemma parseLines_siblingLines: "parseLines siblingLines initParser = Inr siblingParser"
  by code_simp

lemma sibling_examples:
  \<open>0 < Index ''SnapshotName-3="e"'' ''=''\<close>
  \<open>\<not> HasPrefix ''SnapshotName-3="e"'' ''Current''\<close>
  \<open>FindStringSubmatch SnapshotNamePartsRe ''SnapshotName-3="e"''
     = Some [''SnapshotName-3="e"'', ''Name'', ''-3'', ''-3'', ''e'']\<close>
  \<open>rootNode siblingParser \<noteq> None\<close>
  \<open>Count ''-3'' (CHR ''-'') < Count (currentIndicator siblingParser) (CHR ''-'')\<close>
  \<open>Count (currentIndicator siblingParser) (CHR ''-'') = 2\<close>
  \<open>parentStack siblingParser = [Some 0]\<close>
  by code_simp+

lemma treeParser_fields:
  \<open>Count (currentIndicator treeParser) (CHR ''-'') = 3\<close>
  \<open>parentStack treeParser = [Some 2, Some 1, Some 0]\<close>
  \<open>length (heap treeParser) = 4\<close>
  \<open>Children (heap treeParser ! 0) = [1]\<close>
  by code_simp+

section \<open>Properties of the string functions\<close>

lemma HasPrefix_iff: "HasPrefix s pre \<longleftrightarrow> (\<exists>b. s = pre @ b)"
proof
  assume "HasPrefix s pre"
  then have "s = pre @ drop (length pre) s"
    by (metis HasPrefix_def append_take_drop_id)
  then show "\<exists>b. s = pre @ b" ..
next
  assume "\<exists>b. s = pre @ b"
  then show "HasPrefix s pre" by (auto simp: HasPrefix_def)
qed

lemma Contains_iff: "Contains s sub \<longleftrightarrow> (\<exists>a b. s = a @ sub @ b)"
proof (induction s)
  case Nil
  then show ?case by auto
next
  case (Cons c cs)
  show ?case
  proof
    assume "Contains (c # cs) sub"
    then consider "HasPrefix (c # cs) sub" | "Contains cs sub" by auto
    then show "\<exists>a b. c # cs = a @ sub @ b"
    proof cases
      case 1
      then obtain b where "c # cs = sub @ b" by (auto simp: HasPrefix_iff)
      then have "c # cs = [] @ sub @ b" by simp
      then show ?thesis by blast
    next
      case 2
      with Cons obtain a b where "cs = a @ sub @ b" by auto
      then have "c # cs = (c # a) @ sub @ b" by simp
      then show ?thesis by blast
    qed
  next
    assume "\<exists>a b. c # cs = a @ sub @ b"
    then obtain a b where ab: "c # cs = a @ sub @ b" by auto
    show "Contains (c # cs) sub"
    proof (cases a)
      case Nil
      with ab have "HasPrefix (c # cs) sub" by (auto simp: HasPrefix_iff)
      then show ?thesis by simp
    next
      case (Cons x a')
      with ab have "cs = a' @ sub @ b" by simp
      with Cons.IH have "Contains cs sub" by blast
      then show ?thesis by simp
    qed
  qed
qed

lemma trimPrefixes_split:
  "\<exists>pre. s = pre @ trimPrefixes ws s \<and> set pre \<subseteq> \<Union> (set ` set ws)"
proof (induction ws s rule: trimPrefixes.induct)
  case (1 ws s)
  show ?case
  proof (cases "List.find (\<lambda>w. w \<noteq> [] \<and> HasPrefix s w) ws")
    case None
    then have "trimPrefixes ws s = s" by (subst trimPrefixes.simps) simp
    then show ?thesis by auto
  next
    case (Some w)
    then have w: "w \<in> set ws" "HasPrefix s w"
      by (auto simp: find_Some_iff)
    from Some have eq: "trimPrefixes ws s = trimPrefixes ws (drop (length w) s)"
      by (subst trimPrefixes.simps) simp
    from "1.IH" [OF Some] obtain pre where
      pre: "drop (length w) s = pre @ trimPrefixes ws (drop (length w) s)"
        "set pre \<subseteq> \<Union> (set ` set ws)" by blast
    from w(2) have "s = w @ drop (length w) s"
      by (metis HasPrefix_def append_take_drop_id)
    with pre(1) eq have "s = (w @ pre) @ trimPrefixes ws s" by simp
    moreover from w(1) pre(2) have "set (w @ pre) \<subseteq> \<Union> (set ` set ws)" by auto
    ultimately show ?thesis by blast
  qed
qed

lemma TrimSpace_split:
  "\<exists>pre post. s = pre @ TrimSpace s @ post
     \<and> set pre \<subseteq> \<Union> (set ` set whiteSpace) \<and> set post \<subseteq> \<Union> (set ` set whiteSpace)"
proof -
  define t where "t = trimPrefixes whiteSpace s"
  from trimPrefixes_split [of s whiteSpace] obtain pre where
    pre: "s = pre @ t" "set pre \<subseteq> \<Union> (set ` set whiteSpace)"
    unfolding t_def by blast
  from trimPrefixes_split [of "rev t" "map rev whiteSpace"] obtain q where
    q: "rev t = q @ trimPrefixes (map rev whiteSpace) (rev t)"
       "set q \<subseteq> \<Union> (set ` set (map rev whiteSpace))"
    by blast
  have ts: "TrimSpace s = rev (trimPrefixes (map rev whiteSpace) (rev t))"
    by (simp add: TrimSpace_def t_def)
  from q(1) have "t = TrimSpace s @ rev q"
    by (metis ts rev_append rev_rev_ident)
  with pre(1) have "s = pre @ TrimSpace s @ rev q" by simp
  moreover from q(2) have "set (rev q) \<subseteq> \<Union> (set ` set whiteSpace)" by auto
  ultimately show ?thesis using pre(2) by blast
qed

lemma Contains_middle:
  assumes "s = pre @ m @ post" and "sub \<noteq> []"
    and "hd sub \<notin> set pre" and "last sub \<notin> set post"
  shows "Contains s sub \<longleftrightarrow> Contains m sub"
proof
  assume "Contains m sub"
  then obtain a b where "m = a @ sub @ b" by (auto simp: Contains_iff)
  with assms(1) have "s = (pre @ a) @ sub @ (b @ post)" by simp
  then show "Contains s sub" unfolding Contains_iff by blast
next
  assume "Contains s sub"
  then obtain a b where ab: "s = a @ sub @ b" by (auto simp: Contains_iff)
  from assms(2) obtain x xs where sub: "sub = x # xs" by (cases sub) auto
  from assms(2) obtain ys y where sub': "sub = ys @ [y]" by (cases sub rule: rev_cases) auto
  have x: "x \<notin> set pre" using assms(3) sub by simp
  have y: "y \<notin> set post" using assms(4) sub' by simp
  from ab assms(1) have e1: "pre @ (m @ post) = a @ (x # xs @ b)" by (simp add: sub)
  then obtain a' where a': "a = pre @ a'"
    using x by (auto simp: append_eq_append_conv2 append_eq_Cons_conv)
  with e1 have e2: "m @ post = a' @ sub @ b" by (simp add: sub)
  then have "(a' @ ys) @ (y # b) = m @ post" by (simp add: sub')
  then obtain b' where b': "b = b' @ post"
    using y by (auto simp: append_eq_append_conv2 Cons_eq_append_conv)
  with e2 have "m = a' @ sub @ b'" by simp
  then show "Contains m sub" unfolding Contains_iff by blast
qed

lemma Contains_TrimSpace_vboxdrv:
  "Contains (TrimSpace s) ''vboxdrv'' \<longleftrightarrow> Contains s ''vboxdrv''"
proof -
  from TrimSpace_split [of s] obtain pre post where
    s: "s = pre @ TrimSpace s @ post"
    and pre: "set pre \<subseteq> \<Union> (set ` set whiteSpace)"
    and post: "set post \<subseteq> \<Union> (set ` set whiteSpace)" by blast
  have "CHR ''v'' \<notin> \<Union> (set ` set whiteSpace)"
    by (simp add: whiteSpace_def)
  with pre post have "hd ''vboxdrv'' \<notin> set pre" "last ''vboxdrv'' \<notin> set post"
    by auto
  from Contains_middle [OF s _ this] show ?thesis by simp
qed

section \<open>Properties of the matcher\<close>

lemma rmatch_Star_Class_Nil: "rmatch (Star (Class cs)) (p, [], c) = [(p, [], c)]"
  by simp

lemma rmatch_Star_Class_Cons:
  "rmatch (Star (Class cs)) (p, x # xs, c) =
     (if x \<in> set cs then rmatch (Star (Class cs)) (Suc p, xs, c) @ [(p, x # xs, c)]
      else [(p, x # xs, c)])"
  by simp

lemma rmatch_Star_Class:
  "rmatch (Star (Class cs)) (p, s, c) \<noteq> [] \<and>
   hd (rmatch (Star (Class cs)) (p, s, c)) =
     (p + length (takeWhile (\<lambda>x. x \<in> set cs) s), dropWhile (\<lambda>x. x \<in> set cs) s, c)"
  by (induction s arbitrary: p)
     (simp_all add: rmatch_Star_Class_Nil rmatch_Star_Class_Cons del: rmatch.simps)

lemma rmatch_Plus_Class_Nil:
  "takeWhile (\<lambda>x. x \<in> set cs) s = [] \<Longrightarrow> rmatch (Plus (Class cs)) (p, s, c) = []"
  by (cases s) (simp_all add: Plus_def split: if_splits)

lemma rmatch_Plus_Class_Cons:
  assumes "takeWhile (\<lambda>x. x \<in> set cs) s \<noteq> []"
  shows "rmatch (Plus (Class cs)) (p, s, c) \<noteq> [] \<and>
     hd (rmatch (Plus (Class cs)) (p, s, c)) =
       (p + length (takeWhile (\<lambda>x. x \<in> set cs) s), dropWhile (\<lambda>x. x \<in> set cs) s, c)"
proof (cases s)
  case Nil
  with assms show ?thesis by simp
next
  case (Cons x xs)
  with assms have x: "x \<in> set cs" by (simp split: if_splits)
  have "rmatch (Plus (Class cs)) (p, s, c) = rmatch (Star (Class cs)) (Suc p, xs, c)"
    unfolding Plus_def Cons using x by (simp del: rmatch.simps(8) add: rmatch.simps(8) [of "Class cs" "Suc p"])
  then show ?thesis
    using rmatch_Star_Class [of cs "Suc p" xs c] Cons x by (simp del: rmatch.simps)
qed

lemma rmatch_groupFree:
  "groupFree r \<Longrightarrow> st' \<in> set (rmatch r st) \<Longrightarrow> snd (snd st') = snd (snd st)"
proof (induction r st arbitrary: st' rule: rmatch.induct)
  case (1 l p s c)
  then show ?case by (auto split: if_splits)
next
  case (2 cs p s c)
  then show ?case by (auto split: if_splits list.splits)
next
  case (3 cs p s c)
  then show ?case by (auto split: if_splits list.splits)
next
  case (4 p s c)
  then show ?case by (auto split: if_splits)
next
  case (5 a b p s c)
  from "5.prems"(2) have "st' \<in> set (concat (map (rmatch b) (rmatch a (p, s, c))))"
    by (simp only: rmatch.simps)
  then obtain mid where mid: "mid \<in> set (rmatch a (p, s, c))" and st': "st' \<in> set (rmatch b mid)"
    by (auto simp del: rmatch.simps)
  from "5.prems"(1) have "groupFree a" "groupFree b" by simp_all
  from "5.IH"(1) [OF \<open>groupFree a\<close> mid] "5.IH"(2) [OF mid \<open>groupFree b\<close> st']
  show ?case by (simp del: rmatch.simps)
next
  case (6 a b p s c)
  then show ?case by (cases st') auto
next
  case (7 a p s c)
  then show ?case by (cases st') auto
next
  case (8 a p s c)
  from "8.prems"(1) have gf: "groupFree a" by simp
  from "8.prems"(2) have
    "st' \<in> set (concat (map (\<lambda>(p', s', c').
                    if length s' < length s then rmatch (Star a) (p', s', c') else [])
                 (rmatch a (p, s, c))) @ [(p, s, c)])"
    by (simp only: rmatch.simps(8) [of a p s c])
  then consider "st' = (p, s, c)"
    | p' s' c' where "(p', s', c') \<in> set (rmatch a (p, s, c))" "length s' < length s"
        "st' \<in> set (rmatch (Star a) (p', s', c'))"
    by (auto simp del: rmatch.simps split: if_splits)
  then show ?case
  proof cases
    case 1
    then show ?thesis by simp
  next
    case 2
    from "8.IH"(1) [OF gf 2(1)] have "c' = c" by (simp del: rmatch.simps)
    moreover from "8.IH"(2) [OF 2(1) refl refl 2(2) "8.prems"(1) 2(3)]
    have "snd (snd st') = c'" by (simp del: rmatch.simps)
    ultimately show ?thesis by simp
  qed
next
  case (9 a p s c)
  from "9.prems"(1) have gf: "groupFree a" by simp
  from "9.prems"(2) have
    "st' \<in> set ((p, s, c) # concat (map (\<lambda>(p', s', c').
                    if length s' < length s then rmatch (LazyStar a) (p', s', c') else [])
                 (rmatch a (p, s, c))))"
    by (simp only: rmatch.simps(9) [of a p s c])
  then consider "st' = (p, s, c)"
    | p' s' c' where "(p', s', c') \<in> set (rmatch a (p, s, c))" "length s' < length s"
        "st' \<in> set (rmatch (LazyStar a) (p', s', c'))"
    by (auto simp del: rmatch.simps split: if_splits)
  then show ?case
  proof cases
    case 1
    then show ?thesis by simp
  next
    case 2
    from "9.IH"(1) [OF gf 2(1)] have "c' = c" by (simp del: rmatch.simps)
    moreover from "9.IH"(2) [OF 2(1) refl refl 2(2) "9.prems"(1) 2(3)]
    have "snd (snd st') = c'" by (simp del: rmatch.simps)
    ultimately show ?thesis by simp
  qed
next
  case (10 n a p s c)
  then show ?case by simp
qed

lemma rmatch_Group_Bol_later:
  "0 < p \<Longrightarrow> rmatch (Group n (Seq Bol r)) (p, s, c) = []"
  by simp

lemma rmatch_Seq_Bol_0: "rmatch (Seq Bol r) (0, s, c) = rmatch r (0, s, c)"
  by simp

lemma find_from_versionRe_later:
  "0 < p \<Longrightarrow> find_from versionRe p s = None"
proof (induction s arbitrary: p)
  case Nil
  then show ?case
    by (subst find_from.simps) (simp add: versionRe_def rmatch_Group_Bol_later del: rmatch.simps)
next
  case (Cons x xs)
  then show ?case
    by (subst find_from.simps) (simp add: versionRe_def rmatch_Group_Bol_later del: rmatch.simps find_from.simps)
qed

lemma NumSubexp_versionRe: "NumSubexp versionRe = 1"
  by (simp add: versionRe_def Plus_def)

lemma versionRe_no_match:
  assumes "leadingRun v = []"
  shows "FindStringSubmatch versionRe v = None"
proof -
  have "rmatch (Plus (Class ''.0123456789'')) (0, v, c) = []" for c
    using assms unfolding leadingRun_def by (rule rmatch_Plus_Class_Nil)
  then have "rmatch (Group 0 versionRe) (0, v, c) = []" for c
    unfolding versionRe_def
    by (simp only: rmatch.simps(10) rmatch_Seq_Bol_0)
       (simp only: rmatch.simps(5,10) list.map concat.simps)
  then have "find_from versionRe 0 v = (case v of [] \<Rightarrow> None | x # xs \<Rightarrow> find_from versionRe (Suc 0) xs)"
    by (subst find_from.simps) (simp del: rmatch.simps find_from.simps)
  then show ?thesis
    by (simp add: FindStringSubmatch_def find_from_versionRe_later split: list.splits
          del: find_from.simps)
qed

lemma versionRe_match:
  assumes "leadingRun v \<noteq> []"
  shows "\<exists>m0. FindStringSubmatch versionRe v = Some [m0, leadingRun v]"
proof -
  define tag where
    "tag = Opt (Seq (Lit ''_'') (Seq (Alt (Lit ''RC'') (Lit ''OSEr'')) (Plus (Class ''0123456789''))))"
  define c0 where "c0 = [None, None :: string option]"
  define n where "n = length (leadingRun v)"
  define r1 :: mstate where
    "r1 = (n, dropWhile (\<lambda>c. c \<in> set ''.0123456789'') v, [None, Some (leadingRun v)])"
  have re: "versionRe = Seq Bol (Seq (Group 1 (Plus (Class ''.0123456789''))) tag)"
    by (simp add: versionRe_def tag_def)
  have gf: "groupFree tag"
    by (simp add: tag_def Plus_def)
  have take: "take n v = leadingRun v"
    unfolding n_def leadingRun_def by (rule takeWhile_eq_take [symmetric])
  from assms rmatch_Plus_Class_Cons [of "''.0123456789''" v 0 c0]
  obtain rest where plus:
    "rmatch (Plus (Class ''.0123456789'')) (0, v, c0)
       = (n, dropWhile (\<lambda>c. c \<in> set ''.0123456789'') v, c0) # rest"
    unfolding leadingRun_def n_def
    by (cases "rmatch (Plus (Class ''.0123456789'')) (0, v, c0)") (auto simp del: rmatch.simps)
  have g1: "\<exists>rest'. rmatch (Group 1 (Plus (Class ''.0123456789''))) (0, v, c0) = r1 # rest'"
    by (simp only: rmatch.simps(10) plus) (simp add: r1_def c0_def take)
  then obtain rest' where g1': "rmatch (Group 1 (Plus (Class ''.0123456789''))) (0, v, c0) = r1 # rest'" ..
  have tag_ne: "rmatch tag r1 \<noteq> []"
    unfolding tag_def r1_def by (simp only: rmatch.simps(7)) simp
  define L where "L = rmatch (Seq (Group 1 (Plus (Class ''.0123456789''))) tag) (0, v, c0)"
  have L: "L = rmatch tag r1 @ concat (map (rmatch tag) rest')"
    unfolding L_def by (simp only: rmatch.simps(5) g1') simp
  with tag_ne have Lne: "L \<noteq> []" and hdL: "hd L \<in> set (rmatch tag r1)"
    by simp_all
  from rmatch_groupFree [OF gf hdL] have caps: "snd (snd (hd L)) = [None, Some (leadingRun v)]"
    by (simp add: r1_def)
  obtain p' s' where hd: "hd L = (p', s', [None, Some (leadingRun v)])"
    using caps by (cases "hd L") auto
  have whole: "rmatch (Group 0 versionRe) (0, v, c0)
      = map (\<lambda>(p', s', c'). (p', s', c'[0 := Some (take (p' - 0) v)])) L"
    unfolding re L_def by (simp only: rmatch_Seq_Bol_0 rmatch.simps(10))
  from Lne obtain tl where "L = hd L # tl" by (cases L) auto
  with whole hd have "rmatch (Group 0 versionRe) (0, v, c0)
      = (p', s', [Some (take p' v), Some (leadingRun v)])
        # map (\<lambda>(p', s', c'). (p', s', c'[0 := Some (take (p' - 0) v)])) tl"
    by (metis (no_types, lifting) list.simps(9) list_update_code(2) old.prod.case minus_nat.diff_0)
  then have "find_from versionRe 0 v = Some [take p' v, leadingRun v]"
    by (subst find_from.simps) (simp add: NumSubexp_versionRe c0_def del: rmatch.simps find_from.simps)
  then show ?thesis
    by (auto simp: FindStringSubmatch_def)
qed

subsection \<open>The matcher and the meaning of expressions\<close>

text \<open>
  The matcher finds exactly the matches of an expression: a state is among the results
  of \<open>rmatch\<close> if and only if the expression matches the text consumed on the way.  So
  \<open>MatchString\<close> holds if and only if the expression matches some part of the text.
\<close>

inductive_cases matches_LitE: "matches (Lit l) p w"
inductive_cases matches_ClassE: "matches (Class cs) p w"
inductive_cases matches_SeqE: "matches (Seq a b) p w"
inductive_cases matches_GroupE: "matches (Group n a) p w"

lemma rmatch_sound:
  "st' \<in> set (rmatch r st) \<Longrightarrow>
     \<exists>w. fst (snd st) = w @ fst (snd st') \<and> fst st' = fst st + length w \<and> matches r (fst st) w"
proof (induction r st arbitrary: st' rule: rmatch.induct)
  case (1 l p s c)
  then have "HasPrefix s l" and st': "st' = (p + length l, drop (length l) s, c)"
    by (auto split: if_splits)
  then have "s = l @ drop (length l) s"
    by (metis HasPrefix_def append_take_drop_id)
  with st' show ?case by (auto intro: matches.Lit)
next
  case (2 cs p s c)
  then show ?case
    by (cases s) (auto split: if_splits intro: matches.Class)
next
  case (3 cs p s c)
  then show ?case
    by (cases s) (auto split: if_splits intro: matches.NClass)
next
  case (4 p s c)
  then show ?case by (auto split: if_splits intro: matches.Bol)
next
  case (5 a b p s c)
  from "5.prems" have "st' \<in> set (concat (map (rmatch b) (rmatch a (p, s, c))))"
    by (simp only: rmatch.simps)
  then obtain mid where mid: "mid \<in> set (rmatch a (p, s, c))" and st': "st' \<in> set (rmatch b mid)"
    by (auto simp del: rmatch.simps)
  from "5.IH"(1) [OF mid] obtain u where
    u: "s = u @ fst (snd mid)" "fst mid = p + length u" "matches a p u" by auto
  from "5.IH"(2) [OF mid st'] obtain v where
    v: "fst (snd mid) = v @ fst (snd st')" "fst st' = fst mid + length v" "matches b (fst mid) v"
    by auto
  from u v have "matches (Seq a b) p (u @ v)" by (auto intro: matches.Seq)
  with u v show ?case by (auto simp del: rmatch.simps)
next
  case (6 a b p s c)
  from "6.prems" consider "st' \<in> set (rmatch a (p, s, c))" | "st' \<in> set (rmatch b (p, s, c))"
    by auto
  then show ?case
  proof cases
    case 1
    from "6.IH"(1) [OF 1] show ?thesis by (auto intro: matches.AltL)
  next
    case 2
    from "6.IH"(2) [OF 2] show ?thesis by (auto intro: matches.AltR)
  qed
next
  case (7 a p s c)
  from "7.prems" consider "st' \<in> set (rmatch a (p, s, c))" | "st' = (p, s, c)"
    by auto
  then show ?case
  proof cases
    case 1
    from "7.IH" [OF 1] show ?thesis by (auto intro: matches.OptSome)
  next
    case 2
    then show ?thesis by (auto intro: matches.OptNone)
  qed
next
  case (8 a p s c)
  from "8.prems" have
    "st' \<in> set (concat (map (\<lambda>(p', s', c').
                    if length s' < length s then rmatch (Star a) (p', s', c') else [])
                 (rmatch a (p, s, c))) @ [(p, s, c)])"
    by (simp only: rmatch.simps(8) [of a p s c])
  then consider "st' = (p, s, c)"
    | p' s' c' where "(p', s', c') \<in> set (rmatch a (p, s, c))" "length s' < length s"
        "st' \<in> set (rmatch (Star a) (p', s', c'))"
    by (auto simp del: rmatch.simps split: if_splits)
  then show ?case
  proof cases
    case 1
    then show ?thesis by (auto intro: matches.StarNil)
  next
    case 2
    from "8.IH"(1) [OF 2(1)] obtain u where
      u: "s = u @ s'" "p' = p + length u" "matches a p u" by auto
    from "8.IH"(2) [OF 2(1) refl refl 2(2) 2(3)] obtain v where
      v: "s' = v @ fst (snd st')" "fst st' = p' + length v" "matches (Star a) p' v" by auto
    from u(1) 2(2) have "u \<noteq> []" by auto
    with u v have "matches (Star a) p (u @ v)" by (auto intro: matches.StarCons)
    with u v show ?thesis by (auto simp del: rmatch.simps)
  qed
next
  case (9 a p s c)
  from "9.prems" have
    "st' \<in> set ((p, s, c) # concat (map (\<lambda>(p', s', c').
                    if length s' < length s then rmatch (LazyStar a) (p', s', c') else [])
                 (rmatch a (p, s, c))))"
    by (simp only: rmatch.simps(9) [of a p s c])
  then consider "st' = (p, s, c)"
    | p' s' c' where "(p', s', c') \<in> set (rmatch a (p, s, c))" "length s' < length s"
        "st' \<in> set (rmatch (LazyStar a) (p', s', c'))"
    by (auto simp del: rmatch.simps split: if_splits)
  then show ?case
  proof cases
    case 1
    then show ?thesis by (auto intro: matches.LazyStarNil)
  next
    case 2
    from "9.IH"(1) [OF 2(1)] obtain u where
      u: "s = u @ s'" "p' = p + length u" "matches a p u" by auto
    from "9.IH"(2) [OF 2(1) refl refl 2(2) 2(3)] obtain v where
      v: "s' = v @ fst (snd st')" "fst st' = p' + length v" "matches (LazyStar a) p' v" by auto
    from u(1) 2(2) have "u \<noteq> []" by auto
    with u v have "matches (LazyStar a) p (u @ v)" by (auto intro: matches.LazyStarCons)
    with u v show ?thesis by (auto simp del: rmatch.simps)
  qed
next
  case (10 n a p s c)
  from "10.prems" obtain mid where mid: "mid \<in> set (rmatch a (p, s, c))"
    and st': "fst st' = fst mid" "fst (snd st') = fst (snd mid)"
    by auto
  from "10.IH" [OF mid] st' show ?case by (auto intro: matches.Group)
qed

lemma rmatch_complete:
  "matches r p w \<Longrightarrow> \<exists>c'. (p + length w, s', c') \<in> set (rmatch r (p, w @ s', c))"
proof (induction r p w arbitrary: s' c rule: matches.induct)
  case (Lit l p)
  then show ?case by (simp add: HasPrefix_def)
next
  case (Class x cs p)
  then show ?case by simp
next
  case (NClass x cs p)
  then show ?case by simp
next
  case Bol
  then show ?case by simp
next
  case (Seq a p u b v)
  from Seq.IH(1) [of "v @ s'" c] obtain c1 where
    1: "(p + length u, v @ s', c1) \<in> set (rmatch a (p, u @ v @ s', c))" by blast
  from Seq.IH(2) [of s' c1] obtain c2 where
    2: "(p + length u + length v, s', c2) \<in> set (rmatch b (p + length u, v @ s', c1))" by blast
  from 1 2 have "(p + length (u @ v), s', c2) \<in> set (rmatch (Seq a b) (p, (u @ v) @ s', c))"
    by (auto simp del: rmatch.simps simp add: rmatch.simps(5) add.assoc)
  then show ?case ..
next
  case (AltL a p w b)
  from AltL.IH [of s' c] show ?case
    by (auto simp del: rmatch.simps simp add: rmatch.simps(6))
next
  case (AltR b p w a)
  from AltR.IH [of s' c] show ?case
    by (auto simp del: rmatch.simps simp add: rmatch.simps(6))
next
  case (OptSome a p w)
  from OptSome.IH [of s' c] show ?case
    by (auto simp del: rmatch.simps simp add: rmatch.simps(7))
next
  case (OptNone a p)
  show ?case by (auto simp del: rmatch.simps simp add: rmatch.simps(7))
next
  case (StarNil a p)
  show ?case by (auto simp del: rmatch.simps simp add: rmatch.simps(8) [of a p s' c])
next
  case (StarCons a p u v)
  from StarCons.IH(1) [of "v @ s'" c] obtain c1 where
    1: "(p + length u, v @ s', c1) \<in> set (rmatch a (p, u @ v @ s', c))" by blast
  from StarCons.IH(2) [of s' c1] obtain c2 where
    2: "(p + length u + length v, s', c2) \<in> set (rmatch (Star a) (p + length u, v @ s', c1))"
    by blast
  from StarCons.hyps(2) have lt: "length (v @ s') < length (u @ v @ s')" by simp
  from 1 2 lt have "(p + length (u @ v), s', c2) \<in> set (rmatch (Star a) (p, (u @ v) @ s', c))"
    by (simp only: rmatch.simps(8) [of a p "(u @ v) @ s'" c])
       (force simp del: rmatch.simps simp add: add.assoc)
  then show ?case ..
next
  case (LazyStarNil a p)
  show ?case by (auto simp del: rmatch.simps simp add: rmatch.simps(9) [of a p s' c])
next
  case (LazyStarCons a p u v)
  from LazyStarCons.IH(1) [of "v @ s'" c] obtain c1 where
    1: "(p + length u, v @ s', c1) \<in> set (rmatch a (p, u @ v @ s', c))" by blast
  from LazyStarCons.IH(2) [of s' c1] obtain c2 where
    2: "(p + length u + length v, s', c2) \<in> set (rmatch (LazyStar a) (p + length u, v @ s', c1))"
    by blast
  from LazyStarCons.hyps(2) have lt: "length (v @ s') < length (u @ v @ s')" by simp
  from 1 2 lt have "(p + length (u @ v), s', c2) \<in> set (rmatch (LazyStar a) (p, (u @ v) @ s', c))"
    by (simp only: rmatch.simps(9) [of a p "(u @ v) @ s'" c])
       (force simp del: rmatch.simps simp add: add.assoc)
  then show ?case ..
next
  case (Group a p w n)
  from Group.IH [of s' c] obtain c1 where
    "(p + length w, s', c1) \<in> set (rmatch a (p, w @ s', c))" by blast
  then have "(p + length w, s', c1[n := Some (take (p + length w - p) (w @ s'))])
      \<in> set (rmatch (Group n a) (p, w @ s', c))"
    by (simp only: rmatch.simps(10)) (force simp del: rmatch.simps)
  then show ?case ..
qed


theorem rmatch_iff:
  "(\<exists>c'. (p', s', c') \<in> set (rmatch r (p, s, c)))
     \<longleftrightarrow> (\<exists>w. s = w @ s' \<and> p' = p + length w \<and> matches r p w)"
proof
  assume "\<exists>c'. (p', s', c') \<in> set (rmatch r (p, s, c))"
  then obtain c' where "(p', s', c') \<in> set (rmatch r (p, s, c))" ..
  from rmatch_sound [OF this] show "\<exists>w. s = w @ s' \<and> p' = p + length w \<and> matches r p w"
    by simp
next
  assume "\<exists>w. s = w @ s' \<and> p' = p + length w \<and> matches r p w"
  then obtain w where w: "s = w @ s'" "p' = p + length w" "matches r p w" by blast
  from rmatch_complete [OF w(3), of s' c] w(1,2)
  show "\<exists>c'. (p', s', c') \<in> set (rmatch r (p, s, c))" by simp
qed

lemma rmatch_nonempty_iff:
  "rmatch r (p, s, c) \<noteq> [] \<longleftrightarrow> (\<exists>w b. s = w @ b \<and> matches r p w)"
proof
  assume "rmatch r (p, s, c) \<noteq> []"
  then obtain st' where "st' \<in> set (rmatch r (p, s, c))"
    by (cases "rmatch r (p, s, c)") auto
  from rmatch_sound [OF this] show "\<exists>w b. s = w @ b \<and> matches r p w"
    by auto
next
  assume "\<exists>w b. s = w @ b \<and> matches r p w"
  then obtain w b where w: "s = w @ b" "matches r p w" by blast
  from rmatch_complete [OF w(2), of b c] w(1) show "rmatch r (p, s, c) \<noteq> []"
    by auto
qed

lemma matches_Group_iff: "matches (Group n a) p w \<longleftrightarrow> matches a p w"
  by (auto intro: matches.Group elim: matches_GroupE)

lemma find_from_iff:
  "find_from re p s \<noteq> None \<longleftrightarrow> (\<exists>a w b. s = a @ w @ b \<and> matches re (p + length a) w)"
proof (induction s arbitrary: p)
  case Nil
  have "find_from re p [] \<noteq> None
      \<longleftrightarrow> rmatch (Group 0 re) (p, [], replicate (Suc (NumSubexp re)) None) \<noteq> []"
    by (subst find_from.simps) (simp del: rmatch.simps find_from.simps split: list.splits)
  then show ?case
    by (simp add: rmatch_nonempty_iff matches_Group_iff del: rmatch.simps find_from.simps)
next
  case (Cons x xs)
  have "find_from re p (x # xs) \<noteq> None
      \<longleftrightarrow> rmatch (Group 0 re) (p, x # xs, replicate (Suc (NumSubexp re)) None) \<noteq> []
          \<or> find_from re (Suc p) xs \<noteq> None"
    by (subst find_from.simps) (simp del: rmatch.simps find_from.simps split: list.splits)
  also have "\<dots> \<longleftrightarrow> (\<exists>w b. x # xs = w @ b \<and> matches re p w)
          \<or> (\<exists>a w b. xs = a @ w @ b \<and> matches re (Suc p + length a) w)"
    by (simp only: rmatch_nonempty_iff matches_Group_iff Cons.IH)
  also have "\<dots> \<longleftrightarrow> (\<exists>a w b. x # xs = a @ w @ b \<and> matches re (p + length a) w)"
  proof
    assume "(\<exists>w b. x # xs = w @ b \<and> matches re p w)
          \<or> (\<exists>a w b. xs = a @ w @ b \<and> matches re (Suc p + length a) w)"
    then show "\<exists>a w b. x # xs = a @ w @ b \<and> matches re (p + length a) w"
    proof
      assume "\<exists>w b. x # xs = w @ b \<and> matches re p w"
      then obtain w b where "x # xs = [] @ w @ b" "matches re (p + length ([] :: string)) w"
        by auto
      then show ?thesis by blast
    next
      assume "\<exists>a w b. xs = a @ w @ b \<and> matches re (Suc p + length a) w"
      then obtain a w b where "x # xs = (x # a) @ w @ b" "matches re (p + length (x # a)) w"
        by auto
      then show ?thesis by blast
    qed
  next
    assume "\<exists>a w b. x # xs = a @ w @ b \<and> matches re (p + length a) w"
    then obtain a w b where awb: "x # xs = a @ w @ b" "matches re (p + length a) w" by blast
    show "(\<exists>w b. x # xs = w @ b \<and> matches re p w)
          \<or> (\<exists>a w b. xs = a @ w @ b \<and> matches re (Suc p + length a) w)"
    proof (cases a)
      case Nil
      with awb show ?thesis by auto
    next
      case (Cons y a')
      with awb have "xs = a' @ w @ b" "matches re (Suc p + length a') w" by auto
      then show ?thesis by blast
    qed
  qed
  finally show ?case .
qed

theorem MatchString_iff:
  "MatchString re s \<longleftrightarrow> (\<exists>a w b. s = a @ w @ b \<and> matches re (length a) w)"
  using find_from_iff [of re 0 s] by (simp add: MatchString_def FindStringSubmatch_def)

lemma matches_Lit_iff: "matches (Lit l) p w \<longleftrightarrow> w = l"
  by (auto intro: matches.Lit elim: matches_LitE)

lemma matches_Class_iff: "matches (Class cs) p w \<longleftrightarrow> (\<exists>x \<in> set cs. w = [x])"
  by (auto intro: matches.Class elim: matches_ClassE)

lemma matches_Seq_iff:
  "matches (Seq a b) p w \<longleftrightarrow> (\<exists>u v. w = u @ v \<and> matches a p u \<and> matches b (p + length u) v)"
proof
  assume "matches (Seq a b) p w"
  then show "\<exists>u v. w = u @ v \<and> matches a p u \<and> matches b (p + length u) v"
    by (rule matches_SeqE) blast
next
  assume "\<exists>u v. w = u @ v \<and> matches a p u \<and> matches b (p + length u) v"
  then show "matches (Seq a b) p w"
    by (auto intro: matches.Seq)
qed

lemma matches_LazyStar_Class_sound:
  "matches r p w \<Longrightarrow> r = LazyStar (Class cs) \<Longrightarrow> set w \<subseteq> set cs"
  by (induction r p w rule: matches.induct) (auto simp: matches_Class_iff)

lemma matches_LazyStar_Class_complete:
  "set w \<subseteq> set cs \<Longrightarrow> matches (LazyStar (Class cs)) p w"
proof (induction w arbitrary: p)
  case Nil
  show ?case by (rule matches.LazyStarNil)
next
  case (Cons x xs)
  then have "matches (Class cs) p [x]" "matches (LazyStar (Class cs)) (p + length [x]) xs"
    by (auto intro: matches.Class)
  then have "matches (LazyStar (Class cs)) p ([x] @ xs)"
    by (intro matches.LazyStarCons) auto
  then show ?case by simp
qed

lemma matches_LazyPlus_Class_iff:
  "matches (LazyPlus (Class cs)) p w \<longleftrightarrow> w \<noteq> [] \<and> set w \<subseteq> set cs"
proof
  assume "matches (LazyPlus (Class cs)) p w"
  then obtain u v where "w = u @ v" "matches (Class cs) p u"
    "matches (LazyStar (Class cs)) (p + length u) v"
    by (auto simp: LazyPlus_def matches_Seq_iff)
  then show "w \<noteq> [] \<and> set w \<subseteq> set cs"
    using matches_LazyStar_Class_sound [of "LazyStar (Class cs)" "p + length u" v cs]
    by (auto simp: matches_Class_iff)
next
  assume w: "w \<noteq> [] \<and> set w \<subseteq> set cs"
  then obtain x xs where "w = x # xs" by (cases w) auto
  with w have "matches (Class cs) p [x]" "matches (LazyStar (Class cs)) (p + length [x]) xs"
    by (auto intro: matches.Class matches_LazyStar_Class_complete)
  then have "matches (Seq (Class cs) (LazyStar (Class cs))) p ([x] @ xs)"
    by (rule matches.Seq)
  with \<open>w = x # xs\<close> show "matches (LazyPlus (Class cs)) p w"
    by (simp add: LazyPlus_def)
qed

theorem MatchString_errorBannerRe_iff:
  "MatchString errorBannerRe s \<longleftrightarrow>
     (\<exists>a mid b. s = a @ ''VBoxManage'' @ mid @ '': error:'' @ b
        \<and> mid \<noteq> [] \<and> set mid \<subseteq> set ''.abcdefghijklmnopqrstuvwxyz'')"
proof -
  have m: "matches errorBannerRe p w \<longleftrightarrow>
     (\<exists>mid. w = ''VBoxManage'' @ mid @ '': error:''
        \<and> mid \<noteq> [] \<and> set mid \<subseteq> set ''.abcdefghijklmnopqrstuvwxyz'')" for p w
    unfolding errorBannerRe_def
    by (simp only: matches_Seq_iff matches_Lit_iff matches_Group_iff matches_LazyPlus_Class_iff)
       blast
  show ?thesis
  proof
    assume "MatchString errorBannerRe s"
    then obtain a w b where "s = a @ w @ b" "matches errorBannerRe (length a) w"
      unfolding MatchString_iff by blast
    with m obtain mid where "s = a @ (''VBoxManage'' @ mid @ '': error:'') @ b"
      "mid \<noteq> []" "set mid \<subseteq> set ''.abcdefghijklmnopqrstuvwxyz''" by blast
    then have "s = a @ ''VBoxManage'' @ mid @ '': error:'' @ b \<and> mid \<noteq> []
        \<and> set mid \<subseteq> set ''.abcdefghijklmnopqrstuvwxyz''"
      by (simp only: append_assoc) simp
    then show "\<exists>a mid b. s = a @ ''VBoxManage'' @ mid @ '': error:'' @ b
        \<and> mid \<noteq> [] \<and> set mid \<subseteq> set ''.abcdefghijklmnopqrstuvwxyz''" by blast
  next
    assume "\<exists>a mid b. s = a @ ''VBoxManage'' @ mid @ '': error:'' @ b
        \<and> mid \<noteq> [] \<and> set mid \<subseteq> set ''.abcdefghijklmnopqrstuvwxyz''"
    then obtain a mid b where s: "s = a @ ''VBoxManage'' @ mid @ '': error:'' @ b"
      and mid: "mid \<noteq> []" "set mid \<subseteq> set ''.abcdefghijklmnopqrstuvwxyz''" by blast
    from mid m have "matches errorBannerRe (length a) (''VBoxManage'' @ mid @ '': error:'')"
      by blast
    moreover from s have "s = a @ (''VBoxManage'' @ mid @ '': error:'') @ b"
      by (simp only: append_assoc)
    ultimately show "MatchString errorBannerRe s"
      unfolding MatchString_iff by blast
  qed
qed

section \<open>The command executor\<close>

text \<open>
  Claim C1.  When the subprocess exits with status zero (\<^verbatim>\<open>cmd.Run\<close> returns no
  error), \<open>VBoxManageWithOutput\<close> returns the trimmed standard output, together with
  the error \<^verbatim>\<open>VBoxManage error: <trimmed stderr>\<close> if the trimmed standard error
  matches \<^verbatim>\<open>VBoxManage([.a-z]+?): error:\<close>, and with no error if it does not.
  By \<open>MatchString_errorBannerRe_iff\<close> the pattern matches the texts in which
  \<^verbatim>\<open>VBoxManage\<close>, one or more dots and lower-case letters, and \<^verbatim>\<open>: error:\<close> follow
  each other.
\<close>

theorem VBoxManageWithOutput_zero_exit:
  assumes "run_err (ex (VBoxManagePath d) args) = None"
  shows "VBoxManageWithOutput ex d args =
     (TrimSpace (stdout (ex (VBoxManagePath d) args)),
      if MatchString errorBannerRe (TrimSpace (stderr (ex (VBoxManagePath d) args)))
      then Some (Errorf (''VBoxManage error: '' @ TrimSpace (stderr (ex (VBoxManagePath d) args))))
      else None)"
  using assms by (simp add: VBoxManageWithOutput_def Let_def)

theorem VBoxManageWithOutput_zero_exit_witness:
  "VBoxManageWithOutput
      (answering (exited (''out'' @ [CHR 0x0A]) (''VBoxManage.exe: error: boom'' @ [CHR 0x0A])))
      exampleDriver [''list'', ''vms'']
     = (''out'', Some (Errorf ''VBoxManage error: VBoxManage.exe: error: boom''))
   \<and> VBoxManageWithOutput
      (answering (exited (''out'' @ [CHR 0x0A]) (''warning: slow disk'' @ [CHR 0x0A])))
      exampleDriver [''list'', ''vms'']
     = (''out'', None)"
  using
    VBoxManageWithOutput_zero_exit [of
      "answering (exited (''out'' @ [CHR 0x0A]) (''VBoxManage.exe: error: boom'' @ [CHR 0x0A]))"
      exampleDriver "[''list'', ''vms'']"]
    VBoxManageWithOutput_zero_exit [of
      "answering (exited (''out'' @ [CHR 0x0A]) (''warning: slow disk'' @ [CHR 0x0A]))"
      exampleDriver "[''list'', ''vms'']"]
  by (simp add: answering_def exited_def TrimSpace_out TrimSpace_banner MatchString_banner
        TrimSpace_warning MatchString_warning del: append.simps)

text \<open>
  Claim C7, as the code has it.  When the subprocess exits with a status other than
  zero (\<^verbatim>\<open>cmd.Run\<close> returns an \<^verbatim>\<open>*exec.ExitError\<close>), the error returned is
  \<^verbatim>\<open>VBoxManage error: <trimmed stderr>\<close>; standard output is not part of it.  Any
  other error of \<^verbatim>\<open>cmd.Run\<close>, such as a binary that could not be started, is
  returned as it is: only an \<^verbatim>\<open>*exec.ExitError\<close> passes the type assertion that
  guards the rewrite.
\<close>

theorem VBoxManageWithOutput_failure:
  fixes ex d args
  defines "r \<equiv> ex (VBoxManagePath d) args"
  shows "(run_err r = Some (ExitError code) \<longrightarrow>
            VBoxManageWithOutput ex d args =
              (TrimSpace (stdout r), Some (Errorf (''VBoxManage error: '' @ TrimSpace (stderr r)))))
       \<and> (run_err r = Some e \<and> (\<forall>code. e \<noteq> ExitError code) \<longrightarrow>
            VBoxManageWithOutput ex d args = (TrimSpace (stdout r), Some e))"
  unfolding r_def by (cases e) (simp_all add: VBoxManageWithOutput_def Let_def)

theorem VBoxManageWithOutput_failure_witness:
  "VBoxManageWithOutput
      (answering \<lparr>run_err = Some (ExitError 1), stdout = ''out'' @ [CHR 0x0A],
                  stderr = ''VBoxManage: error: no such machine'' @ [CHR 0x0A]\<rparr>)
      exampleDriver [''showvminfo'', ''x'']
     = (''out'', Some (Errorf ''VBoxManage error: VBoxManage: error: no such machine''))
   \<and> VBoxManageWithOutput (answering failedStart) exampleDriver [''showvminfo'', ''x'']
     = ([], Some (ExecError ''fork/exec VBoxManage: no such file or directory''))"
  using
    VBoxManageWithOutput_failure [of
      "answering \<lparr>run_err = Some (ExitError 1), stdout = ''out'' @ [CHR 0x0A],
                  stderr = ''VBoxManage: error: no such machine'' @ [CHR 0x0A]\<rparr>"
      exampleDriver "[''showvminfo'', ''x'']" 1 "ExitError 1"]
    VBoxManageWithOutput_failure [of
      "answering failedStart" exampleDriver "[''showvminfo'', ''x'']" 1
      "ExecError ''fork/exec VBoxManage: no such file or directory''"]
  by (simp add: answering_def failedStart_def TrimSpace_out TrimSpace_no_machine TrimSpace_empty
        del: append.simps)

text \<open>
  The claim C7 as stated fails where the binary cannot be started: the error returned
  is the one of \<^verbatim>\<open>cmd.Run\<close>, not one made from standard error.
\<close>

theorem VBoxManageWithOutput_failed_start_counterexample:
  "snd (VBoxManageWithOutput (answering failedStart) exampleDriver [''showvminfo'', ''x''])
     = Some (ExecError ''fork/exec VBoxManage: no such file or directory'')
   \<and> snd (VBoxManageWithOutput (answering failedStart) exampleDriver [''showvminfo'', ''x''])
     \<noteq> Some (Errorf (''VBoxManage error: '' @ TrimSpace (stderr failedStart)))"
  by (simp add: VBoxManageWithOutput_def Let_def answering_def failedStart_def)


section \<open>The running state query\<close>

lemma isRunningLines_iff:
  \<open>isRunningLines ls \<longleftrightarrow>
     (\<exists>l \<in> set ls. TrimRight l [CHR 0x0D]
         \<in> {''VMState="running"'', ''VMState="stopping"'', ''VMState="paused"''})\<close>
  by (induction ls) (auto simp: Let_def)

text \<open>
  Claim C8.  When \<^verbatim>\<open>showvminfo\<close> ran without error, \<open>IsRunning\<close> returns true if
  and only if some line of its output, split at newlines and with trailing carriage
  returns trimmed, is exactly \<^verbatim>\<open>VMState="running"\<close>, \<^verbatim>\<open>VMState="stopping"\<close> or
  \<^verbatim>\<open>VMState="paused"\<close>.  In particular it returns false when every line of the
  form \<^verbatim>\<open>VMState="<state>"\<close> names another state.
\<close>

theorem IsRunning_iff:
  assumes "run_err (ex (VBoxManagePath d) [''showvminfo'', name, ''--machinereadable'']) = None"
  shows \<open>IsRunning ex d name =
     ((\<exists>l \<in> set (Split (stdout (ex (VBoxManagePath d) [''showvminfo'', name, ''--machinereadable''])) (CHR 0x0A)).
          TrimRight l [CHR 0x0D]
            \<in> {''VMState="running"'', ''VMState="stopping"'', ''VMState="paused"''}), None)
     \<and> ((\<forall>l \<in> set (Split (stdout (ex (VBoxManagePath d) [''showvminfo'', name, ''--machinereadable''])) (CHR 0x0A)).
          \<forall>state. TrimRight l [CHR 0x0D] = ''VMState="'' @ state @ ''"''
             \<longrightarrow> state \<notin> {''running'', ''stopping'', ''paused''})
         \<longrightarrow> IsRunning ex d name = (False, None))\<close>
proof -
  let ?out = "stdout (ex (VBoxManagePath d) [''showvminfo'', name, ''--machinereadable''])"
  have eq: \<open>IsRunning ex d name =
     ((\<exists>l \<in> set (Split ?out (CHR 0x0A)).
          TrimRight l [CHR 0x0D]
            \<in> {''VMState="running"'', ''VMState="stopping"'', ''VMState="paused"''}), None)\<close>
    using assms by (simp add: IsRunning_def Let_def isRunningLines_iff)
  have other: \<open>IsRunning ex d name = (False, None)\<close>
    if h: \<open>\<forall>l \<in> set (Split ?out (CHR 0x0A)).
          \<forall>state. TrimRight l [CHR 0x0D] = ''VMState="'' @ state @ ''"''
             \<longrightarrow> state \<notin> {''running'', ''stopping'', ''paused''}\<close>
  proof -
    have \<open>TrimRight l [CHR 0x0D]
            \<notin> {''VMState="running"'', ''VMState="stopping"'', ''VMState="paused"''}\<close>
      if \<open>l \<in> set (Split ?out (CHR 0x0A))\<close> for l
    proof
      assume \<open>TrimRight l [CHR 0x0D]
            \<in> {''VMState="running"'', ''VMState="stopping"'', ''VMState="paused"''}\<close>
      then consider \<open>TrimRight l [CHR 0x0D] = ''VMState="'' @ ''running'' @ ''"''\<close>
        | \<open>TrimRight l [CHR 0x0D] = ''VMState="'' @ ''stopping'' @ ''"''\<close>
        | \<open>TrimRight l [CHR 0x0D] = ''VMState="'' @ ''paused'' @ ''"''\<close>
        by auto
      then show False
        using h that by cases blast+
    qed
    then show ?thesis using eq by auto
  qed
  from eq other show ?thesis by blast
qed

theorem IsRunning_iff_witness:
  \<open>IsRunning (answering (exited pausedInfo [])) exampleDriver ''vm'' = (True, None)
   \<and> IsRunning (answering (exited poweroffInfo [])) exampleDriver ''vm'' = (False, None)\<close>
proof
  show \<open>IsRunning (answering (exited pausedInfo [])) exampleDriver ''vm'' = (True, None)\<close>
    using IsRunning_iff [of \<open>answering (exited pausedInfo [])\<close> exampleDriver \<open>''vm''\<close>]
    by (simp add: answering_def exited_def Split_pausedInfo TrimRight_examples del: append.simps)
next
  have \<open>state \<notin> {''running'', ''stopping'', ''paused''}\<close>
    if \<open>''VMState="poweroff"'' = ''VMState="'' @ state @ ''"''\<close> for state
    using that by auto
  then show \<open>IsRunning (answering (exited poweroffInfo [])) exampleDriver ''vm'' = (False, None)\<close>
    using IsRunning_iff [of \<open>answering (exited poweroffInfo [])\<close> exampleDriver \<open>''vm''\<close>]
    by (simp add: answering_def exited_def Split_poweroffInfo TrimRight_examples del: append.simps)
qed


section \<open>Loading snapshots\<close>

text \<open>
  Claim C4, as the code has it.  When the standard output of the listing command,
  without the white space around it, is exactly the text
  \<^verbatim>\<open>This machine does not have any snapshots\<close>, \<open>LoadSnapshots\<close> returns the nil
  pointer, and no node is made.  The error it returns with it is the one of the
  executor: none when the subprocess exited with status zero and standard error shows
  no error banner, and the executor's failure otherwise, since \<open>LoadSnapshots\<close>
  returns the executor's error before it looks at the listing.
\<close>

theorem LoadSnapshots_no_snapshots:
  fixes ex d vmName
  defines "r \<equiv> ex (VBoxManagePath d) [''snapshot'', vmName, ''list'', ''--machinereadable'']"
  assumes "vmName \<noteq> []"
    and "TrimSpace (stdout r) = ''This machine does not have any snapshots''"
  shows "LoadSnapshots ex d vmName =
           Inr (([], None),
                snd (VBoxManageWithOutput ex d [''snapshot'', vmName, ''list'', ''--machinereadable'']))
       \<and> (run_err r = None \<and> \<not> MatchString errorBannerRe (TrimSpace (stderr r)) \<longrightarrow>
            LoadSnapshots ex d vmName = Inr (([], None), None))
       \<and> (run_err r = None \<and> MatchString errorBannerRe (TrimSpace (stderr r)) \<longrightarrow>
            LoadSnapshots ex d vmName =
              Inr (([], None), Some (Errorf (''VBoxManage error: '' @ TrimSpace (stderr r)))))
       \<and> (run_err r = Some (ExitError code) \<longrightarrow>
            LoadSnapshots ex d vmName =
              Inr (([], None), Some (Errorf (''VBoxManage error: '' @ TrimSpace (stderr r)))))
       \<and> (run_err r = Some e \<and> (\<forall>code. e \<noteq> ExitError code) \<longrightarrow>
            LoadSnapshots ex d vmName = Inr (([], None), Some e))"
proof -
  let ?args = "[''snapshot'', vmName, ''list'', ''--machinereadable'']"
  have out: "fst (VBoxManageWithOutput ex d ?args) = ''This machine does not have any snapshots''"
    using assms(3) by (simp add: VBoxManageWithOutput_def Let_def r_def)
  have 1: "LoadSnapshots ex d vmName = Inr (([], None), snd (VBoxManageWithOutput ex d ?args))"
  proof (cases "VBoxManageWithOutput ex d ?args")
    case (Pair stdoutString err)
    with out have "stdoutString = ''This machine does not have any snapshots''" by simp
    with Pair assms(2) show ?thesis
      by (cases err) (simp_all add: LoadSnapshots_def)
  qed
  have 2: "snd (VBoxManageWithOutput ex d ?args) = None"
    if "run_err r = None \<and> \<not> MatchString errorBannerRe (TrimSpace (stderr r))"
    using that by (simp add: VBoxManageWithOutput_def Let_def r_def)
  have 3: "snd (VBoxManageWithOutput ex d ?args)
      = Some (Errorf (''VBoxManage error: '' @ TrimSpace (stderr r)))"
    if "run_err r = None \<and> MatchString errorBannerRe (TrimSpace (stderr r))"
    using that by (simp add: VBoxManageWithOutput_def Let_def r_def)
  have 4: "snd (VBoxManageWithOutput ex d ?args)
      = Some (Errorf (''VBoxManage error: '' @ TrimSpace (stderr r)))"
    if "run_err r = Some (ExitError code)"
    using that by (simp add: VBoxManageWithOutput_def Let_def r_def)
  have 5: "snd (VBoxManageWithOutput ex d ?args) = Some e"
    if "run_err r = Some e \<and> (\<forall>code. e \<noteq> ExitError code)"
    using that by (cases e) (simp_all add: VBoxManageWithOutput_def Let_def r_def)
  from 1 2 3 4 5 show ?thesis by simp
qed

theorem LoadSnapshots_no_snapshots_witness:
  "LoadSnapshots (answering (exited noSnapshots [])) exampleDriver ''vm'' = Inr (([], None), None)
   \<and> LoadSnapshots (answering noSnapshotsExit1) exampleDriver ''vm''
       = Inr (([], None), Some (Errorf ''VBoxManage error: ''))"
proof
  show "LoadSnapshots (answering (exited noSnapshots [])) exampleDriver ''vm'' = Inr (([], None), None)"
    using LoadSnapshots_no_snapshots
      [of "''vm''" "answering (exited noSnapshots [])" exampleDriver, THEN conjunct2, THEN conjunct1]
    by (simp add: answering_def exited_def TrimSpace_noSnapshots TrimSpace_empty MatchString_empty)
next
  show "LoadSnapshots (answering noSnapshotsExit1) exampleDriver ''vm''
       = Inr (([], None), Some (Errorf ''VBoxManage error: ''))"
    using LoadSnapshots_no_snapshots
      [of "''vm''" "answering noSnapshotsExit1" exampleDriver 1,
       THEN conjunct2, THEN conjunct2, THEN conjunct2, THEN conjunct1]
    by (simp add: answering_def noSnapshotsExit1_def TrimSpace_noSnapshots TrimSpace_empty)
qed

text \<open>
  The claim C4 as stated fails where the command prints the text and exits with
  status 1: \<open>LoadSnapshots\<close> returns the nil pointer together with the failure.
\<close>

theorem LoadSnapshots_no_snapshots_failure_counterexample:
  "LoadSnapshots (answering noSnapshotsExit1) exampleDriver ''vm''
     = Inr (([], None), Some (Errorf ''VBoxManage error: ''))
   \<and> TrimSpace (stdout noSnapshotsExit1) = ''This machine does not have any snapshots''
   \<and> LoadSnapshots (answering noSnapshotsExit1) exampleDriver ''vm'' \<noteq> Inr (([], None), None)"
  by (simp add: LoadSnapshots_def VBoxManageWithOutput_def Let_def answering_def
        noSnapshotsExit1_def TrimSpace_noSnapshots TrimSpace_empty)

text \<open>
  Claim C9, as the code has it.  Each snapshot operation called with an empty machine
  name panics with \<^verbatim>\<open>Argument empty exception\<close> before it runs any command, and
  \<open>SetSnapshot\<close> and \<open>DeleteSnapshot\<close> called with a nil snapshot panic with
  \<^verbatim>\<open>Argument null exception: sn\<close>.  None of them returns an error to its caller.
\<close>

theorem snapshot_operations_panic:
  "LoadSnapshots ex d [] = Inl (Panic ''Argument empty exception: vmName'')
   \<and> CreateSnapshot ex d [] snapshotName = Inl (Panic ''Argument empty exception: vmname'')
   \<and> HasSnapshots ex d [] = Inl (Panic ''Argument empty exception: vmname'')
   \<and> GetCurrentSnapshot getCurrent ex d [] = Inl (Panic ''Argument empty exception: vmname'')
   \<and> SetSnapshot ex d [] sn = Inl (Panic ''Argument empty exception: vmname'')
   \<and> DeleteSnapshot ex d [] sn = Inl (Panic ''Argument empty exception: vmname'')
   \<and> SetSnapshot ex d vmname (h, None) =
        Inl (Panic (if vmname = [] then ''Argument empty exception: vmname''
                    else ''Argument null exception: sn''))
   \<and> DeleteSnapshot ex d vmname (h, None) =
        Inl (Panic (if vmname = [] then ''Argument empty exception: vmname''
                    else ''Argument null exception: sn''))"
  by (simp add: LoadSnapshots_def CreateSnapshot_def HasSnapshots_def GetCurrentSnapshot_def
        SetSnapshot_def DeleteSnapshot_def)

text \<open>
  The claim C9 as stated fails: with an empty name \<open>LoadSnapshots\<close> does not return
  at all, and neither does \<open>SetSnapshot\<close> with a nil snapshot; they panic.
\<close>

theorem LoadSnapshots_empty_name_counterexample:
  "LoadSnapshots (answering (exited [] [])) exampleDriver []
     = Inl (Panic ''Argument empty exception: vmName'')
   \<and> SetSnapshot (answering (exited [] [])) exampleDriver ''vm'' ([], None)
     = Inl (Panic ''Argument null exception: sn'')"
  by (simp add: LoadSnapshots_def SetSnapshot_def)

lemma parseLines_panics:
  assumes "txt \<in> set ls" and "\<And>st. scanLine txt st = Inl p"
  shows "\<exists>q. parseLines ls st = Inl q"
  using assms(1)
proof (induction ls arbitrary: st)
  case Nil
  then show ?case by simp
next
  case (Cons l ls)
  show ?case
  proof (cases "scanLine l st")
    case (Inl q)
    then show ?thesis by simp
  next
    case (Inr st')
    with assms(2) have "l \<noteq> txt" by auto
    with Cons.prems have "txt \<in> set ls" by simp
    from Cons.IH [OF this] Inr show ?thesis by simp
  qed
qed

text \<open>
  Claim C10.  A line whose first \<open>=\<close> is at index 1 or later, which does not start
  with \<^verbatim>\<open>Current\<close> and in which the pattern of \<open>SnapshotNamePartsRe\<close> finds no match,
  makes the parser index the nil slice of matches and panic, whatever the state of the
  parser; so a listing that holds such a line never yields a tree.  A line without
  \<open>=\<close> is skipped.  Examples are a key that is not a snapshot key,
  \<^verbatim>\<open>SnapshotDescription-1="x"\<close>, and a path with the digit 0, \<^verbatim>\<open>SnapshotName-10="x"\<close>.
\<close>

theorem scanLine_no_match_panics:
  assumes "0 < Index txt ''=''"
    and "\<not> HasPrefix txt ''Current''"
    and "FindStringSubmatch SnapshotNamePartsRe txt = None"
  shows "scanLine txt st = Inl (Panic ''index out of range'')
       \<and> (txt \<in> set ls \<longrightarrow> (\<exists>p. parseLines ls st = Inl p))
       \<and> (Index other ''='' \<le> 0 \<longrightarrow> scanLine other st = Inr st)"
proof -
  have 1: "scanLine txt st' = Inl (Panic ''index out of range'')" for st'
    using assms by (simp add: scanLine_def)
  have 2: "\<exists>p. parseLines ls st = Inl p" if "txt \<in> set ls"
    using that 1 by (rule parseLines_panics)
  have 3: "scanLine other st = Inr st" if "Index other ''='' \<le> 0"
    using that by (simp add: scanLine_def)
  from 1 2 3 show ?thesis by blast
qed

theorem scanLine_no_match_panics_witness:
  \<open>scanLine ''SnapshotDescription-1="x"'' initParser = Inl (Panic ''index out of range'')
   \<and> scanLine ''SnapshotName-10="x"'' initParser = Inl (Panic ''index out of range'')
   \<and> (\<exists>p. parseLines [''no separator'', ''SnapshotName-10="x"''] initParser = Inl p)
   \<and> scanLine ''no separator'' initParser = Inr initParser\<close>
  using
    scanLine_no_match_panics [of \<open>''SnapshotDescription-1="x"''\<close> initParser \<open>[]\<close> \<open>''no separator''\<close>]
    scanLine_no_match_panics [of \<open>''SnapshotName-10="x"''\<close> initParser
       \<open>[''no separator'', ''SnapshotName-10="x"'']\<close> \<open>''no separator''\<close>]
  by (simp only: unmatched_examples) simp


text \<open>
  Hence \<open>LoadSnapshots\<close> itself panics when the executor succeeds with a listing, other
  than the text for no snapshots, that holds such a line.
\<close>

lemma LoadSnapshots_unmatched_line_panics:
  assumes "vmName \<noteq> []"
    and "VBoxManageWithOutput ex d [''snapshot'', vmName, ''list'', ''--machinereadable'']
           = (stdoutString, None)"
    and "stdoutString \<noteq> ''This machine does not have any snapshots''"
    and "l \<in> set (ScanLines stdoutString)"
    and "0 < Index l ''=''"
    and "\<not> HasPrefix l ''Current''"
    and "FindStringSubmatch SnapshotNamePartsRe l = None"
  shows "\<exists>p. LoadSnapshots ex d vmName = Inl p"
proof -
  have "scanLine l st = Inl (Panic ''index out of range'')" for st
    using assms(5-7) by (simp add: scanLine_def)
  with assms(4) obtain q where "parseLines (ScanLines stdoutString) initParser = Inl q"
    using parseLines_panics by blast
  with assms(1-3) show ?thesis
    by (simp add: LoadSnapshots_def)
qed

section \<open>The version and the port count flag\<close>

text \<open>
  Claim C5.  When the version query ran without error, with \<open>versionOutput\<close> the
  standard output without the white space around it: if the output contains
  \<^verbatim>\<open>vboxdrv\<close> anywhere, \<open>Version\<close> returns the error
  \<^verbatim>\<open>VirtualBox is not properly setup\<close>, whether or not a version could be read;
  otherwise it returns the leading run of digits and dots of \<open>versionOutput\<close>, so that
  a tag such as \<^verbatim>\<open>_RC1\<close> after it is dropped; and if there is no such run it
  returns the error \<^verbatim>\<open>No version found\<close> with \<open>versionOutput\<close> in its message.
\<close>

theorem Version_result:
  fixes ex d
  defines "r \<equiv> ex (VBoxManagePath d) [''--version'']"
  defines "versionOutput \<equiv> TrimSpace (stdout r)"
  assumes "run_err r = None"
  shows "Version ex d =
     (if Contains (stdout r) ''vboxdrv''
      then ([], Some (Errorf (''VirtualBox is not properly setup: '' @ versionOutput)))
      else if leadingRun versionOutput = []
      then ([], Some (Errorf (''No version found: '' @ versionOutput)))
      else (leadingRun versionOutput, None))"
proof (cases "leadingRun versionOutput = []")
  case True
  from versionRe_no_match [OF this] assms(3) True show ?thesis
    unfolding Version_def r_def versionOutput_def
    by (simp add: Let_def Contains_TrimSpace_vboxdrv)
next
  case False
  from versionRe_match [OF this] obtain m0 where
    "FindStringSubmatch versionRe versionOutput = Some [m0, leadingRun versionOutput]" ..
  with assms(3) False show ?thesis
    unfolding Version_def r_def versionOutput_def
    by (simp add: Let_def Contains_TrimSpace_vboxdrv)
qed

theorem Version_result_witness:
  "Version (answering (exited (''4.3.0_RC1'' @ [CHR 0x0A]) [])) exampleDriver = (''4.3.0'', None)
   \<and> Version (answering (exited (''4.3.0 vboxdrv is not loaded'' @ [CHR 0x0A]) [])) exampleDriver
       = ([], Some (Errorf ''VirtualBox is not properly setup: 4.3.0 vboxdrv is not loaded''))
   \<and> Version (answering (exited (''unknown'' @ [CHR 0x0A]) [])) exampleDriver
       = ([], Some (Errorf ''No version found: unknown''))"
proof -
  have 1: "Version (answering (exited (''4.3.0_RC1'' @ [CHR 0x0A]) [])) exampleDriver = (''4.3.0'', None)"
    using Version_result [of "answering (exited (''4.3.0_RC1'' @ [CHR 0x0A]) [])" exampleDriver]
    by (simp only: answering_def exited_def cmd_result.simps Version_examples) simp
  have 2: "Version (answering (exited (''4.3.0 vboxdrv is not loaded'' @ [CHR 0x0A]) [])) exampleDriver
       = ([], Some (Errorf ''VirtualBox is not properly setup: 4.3.0 vboxdrv is not loaded''))"
    using Version_result [of "answering (exited (''4.3.0 vboxdrv is not loaded'' @ [CHR 0x0A]) [])" exampleDriver]
    by (simp only: answering_def exited_def cmd_result.simps Version_examples) simp
  have 3: "Version (answering (exited (''unknown'' @ [CHR 0x0A]) [])) exampleDriver
       = ([], Some (Errorf ''No version found: unknown''))"
    using Version_result [of "answering (exited (''unknown'' @ [CHR 0x0A]) [])" exampleDriver]
    by (simp only: answering_def exited_def cmd_result.simps Version_examples) simp
  from 1 2 3 show ?thesis by blast
qed

lemma isDigit_of_char: "isDigit c \<Longrightarrow> (48::int) \<le> of_char c"
  by (auto simp: isDigit_def)

lemma foldl_digits_nonneg:
  "list_all isDigit s \<Longrightarrow> 0 \<le> a \<Longrightarrow> (0::int) \<le> foldl (\<lambda>a c. 10 * a + (of_char c - 48)) a s"
proof (induction s arbitrary: a)
  case Nil
  then show ?case by simp
next
  case (Cons c s)
  from Cons.prems have "(48::int) \<le> of_char c" by (simp add: isDigit_of_char)
  with Cons.prems have "0 \<le> 10 * a + (of_char c - 48)" by simp
  with Cons show ?case by simp
qed

lemma parseDecimal_nonneg: "list_all isDigit s \<Longrightarrow> 0 \<le> parseDecimal s"
  by (simp add: parseDecimal_def foldl_digits_nonneg)

lemma NewVersion_segments:
  assumes "NewVersion v = Inr segments"
  shows "3 \<le> length segments \<and> list_all (\<lambda>n. 0 \<le> n) segments"
proof -
  from assms have seg: "segments = padSegments (map parseDecimal (Split v (CHR ''.'')))"
    and dig: "list_all (\<lambda>str. str \<noteq> [] \<and> list_all isDigit str) (Split v (CHR ''.''))"
    by (auto simp: NewVersion_def Let_def split: if_splits)
  from dig have "list_all (\<lambda>n. 0 \<le> n) (map parseDecimal (Split v (CHR ''.'')))"
    by (auto simp: list_all_iff parseDecimal_nonneg)
  with seg show ?thesis
    by (auto simp: padSegments_def list_all_iff)
qed

lemma NewVersion_4_3: "NewVersion ''4.3'' = Inr [4, 3, 0]"
  by code_simp

lemma Compare_Nil_nonneg: "0 \<le> Compare zs []"
  by (cases zs) simp_all

lemma LessThan_4_3:
  assumes "list_all (\<lambda>n. 0 \<le> n) rest"
  shows "LessThan (major # minor # rest) [4, 3, 0] \<longleftrightarrow> major < 4 \<or> (major = 4 \<and> minor < 3)"
proof (cases rest)
  case Nil
  then show ?thesis by (auto simp: LessThan_def)
next
  case (Cons z zs)
  with assms have "0 \<le> z" by simp
  with Cons Compare_Nil_nonneg [of zs] show ?thesis
    by (auto simp: LessThan_def)
qed

text \<open>
  Claim C6.  When \<open>Version\<close> yields a version that \<open>NewVersion\<close> parses, the command of
  \<open>CreateSATAController\<close> spells the port count flag \<^verbatim>\<open>--sataportcount\<close> if the
  version is below 4.3 (its first segment is below 4, or is 4 and the second is below
  3), and \<^verbatim>\<open>--portcount\<close> otherwise.
\<close>

theorem sataCommand_port_count_flag:
  assumes "Version ex d = (version, None)" and "NewVersion version = Inr segments"
  shows "\<exists>major minor rest. segments = major # minor # rest \<and>
     sataCommand ex d vmName name portcount =
       Inr [''storagectl'', vmName, ''--name'', name, ''--add'', ''sata'',
            if major < 4 \<or> (major = 4 \<and> minor < 3) then ''--sataportcount'' else ''--portcount'',
            Itoa portcount] \<and>
     CreateSATAController ex d vmName name portcount =
       VBoxManage ex d
           [''storagectl'', vmName, ''--name'', name, ''--add'', ''sata'',
            if major < 4 \<or> (major = 4 \<and> minor < 3) then ''--sataportcount'' else ''--portcount'',
            Itoa portcount]"
proof -
  from NewVersion_segments [OF assms(2)] obtain major minor rest where
    seg: "segments = major # minor # rest" and nn: "list_all (\<lambda>n. 0 \<le> n) rest"
    by (cases segments; cases "tl segments") auto
  have cmd: "sataCommand ex d vmName name portcount =
       Inr [''storagectl'', vmName, ''--name'', name, ''--add'', ''sata'',
            if major < 4 \<or> (major = 4 \<and> minor < 3) then ''--sataportcount'' else ''--portcount'',
            Itoa portcount]"
    using assms seg LessThan_4_3 [OF nn, of major minor]
    by (simp add: sataCommand_def NewVersion_4_3 Let_def)
  then show ?thesis
    using seg by (simp add: CreateSATAController_def)
qed

theorem sataCommand_port_count_flag_witness:
  "sataCommand (answering (exited (''4.2.99'' @ [CHR 0x0A]) [])) exampleDriver ''vm'' ''SATA'' 30
     = Inr [''storagectl'', ''vm'', ''--name'', ''SATA'', ''--add'', ''sata'', ''--sataportcount'', ''30'']
   \<and> sataCommand (answering (exited (''4.3.0'' @ [CHR 0x0A]) [])) exampleDriver ''vm'' ''SATA'' 30
     = Inr [''storagectl'', ''vm'', ''--name'', ''SATA'', ''--add'', ''sata'', ''--portcount'', ''30'']
   \<and> sataCommand (answering (exited (''5.1.2'' @ [CHR 0x0A]) [])) exampleDriver ''vm'' ''SATA'' 30
     = Inr [''storagectl'', ''vm'', ''--name'', ''SATA'', ''--add'', ''sata'', ''--portcount'', ''30'']"
  using
    sataCommand_port_count_flag [OF sata_examples(1) sata_examples(2), of "''vm''" "''SATA''" 30]
    sataCommand_port_count_flag [OF sata_examples(3) sata_examples(4), of "''vm''" "''SATA''" 30]
    sataCommand_port_count_flag [OF sata_examples(5) sata_examples(6), of "''vm''" "''SATA''" 30]
  by (simp add: sata_examples(7))

section \<open>The ancestor stack\<close>

lemma Pop_drop: "Pop stk = drop 1 stk"
  by (cases stk) (simp_all add: Pop_def)

lemma popLoop_drop: "popLoop i n stk = drop (nat (n - i)) stk"
proof (induction i n stk rule: popLoop.induct)
  case (1 i n stk)
  show ?case
  proof (cases "i < n")
    case True
    then have "nat (n - i) = Suc (nat (n - (i + 1)))" by simp
    with True 1 show ?thesis
      by (subst popLoop.simps) (simp add: Pop_drop)
  next
    case False
    then show ?thesis by (subst popLoop.simps) simp
  qed
qed

lemma Pop_funpow: "(Pop ^^ k) stk = drop k stk"
  by (induction k arbitrary: stk) (simp_all add: Pop_drop funpow_swap1)

text \<open>
  Claim C3.  For a \<^verbatim>\<open>Name\<close> record that is not the first, whose path has fewer
  separators than the indicator the parser tracks (\<open>cur\<close> separators), the parser calls
  \<^verbatim>\<open>Pop\<close> exactly \<open>cur - 1\<close> times before it takes the top of the stack as the
  parent, whatever the depth of the record itself.  \<^verbatim>\<open>Pop\<close> on an empty stack does
  nothing, so this removes the top \<open>cur - 1\<close> entries, or all of them if there are
  fewer.  If the stack is then empty the type assertion on \<^verbatim>\<open>Peek\<close> panics;
  otherwise the new node becomes the current node and is appended to the children of
  the node on top.
\<close>

theorem scanLine_pops_current_depth_minus_one:
  fixes st
  defines "cur \<equiv> Count (currentIndicator st) (CHR ''-'')"
  defines "n \<equiv> length (heap st)"
  assumes "0 < Index txt ''=''"
    and "\<not> HasPrefix txt ''Current''"
    and "FindStringSubmatch SnapshotNamePartsRe txt = Some [m0, ''Name'', path, leaf, val]"
    and "rootNode st \<noteq> None"
    and "Count path (CHR ''-'') < cur"
  shows "(Pop ^^ (cur - 1)) (parentStack st) = drop (cur - 1) (parentStack st)
     \<and> ((Pop ^^ (cur - 1)) (parentStack st) = [] \<longrightarrow>
           scanLine txt st
             = Inl (Panic ''interface conversion: interface is nil, not *VBoxSnapshot''))
     \<and> ((Pop ^^ (cur - 1)) (parentStack st) \<noteq> [] \<longrightarrow>
           (\<exists>st'. scanLine txt st = Inr st'
              \<and> parentStack st' = (Pop ^^ (cur - 1)) (parentStack st)
              \<and> node st' = Some n
              \<and> length (heap st') = Suc n
              \<and> (\<forall>p. hd (parentStack st') = Some p \<and> p < n \<longrightarrow>
                    Children (heap st' ! p) = Children (heap st ! p) @ [n])))"
proof -
  let ?stk = "drop (cur - 1) (parentStack st)"
  have pl: "popLoop 0 (int (Count (currentIndicator st) (CHR ''-'')) - 1) (parentStack st) = ?stk"
    using assms(7) by (simp add: popLoop_drop cur_def nat_diff_distrib')
  have sl: "scanLine txt st = nameRecord path val st"
    using assms(3,4,5) by (simp add: scanLine_def)
  have 1: "(Pop ^^ (cur - 1)) (parentStack st) = ?stk"
    by (rule Pop_funpow)
  have 2: "scanLine txt st = Inl (Panic ''interface conversion: interface is nil, not *VBoxSnapshot'')"
    if "?stk = []"
    using that assms(6,7) pl unfolding sl nameRecord_def cur_def
    by (simp add: Let_def Peek_def)
  have 3: "\<exists>st'. scanLine txt st = Inr st'
              \<and> parentStack st' = ?stk
              \<and> node st' = Some n
              \<and> length (heap st') = Suc n
              \<and> (\<forall>p. hd (parentStack st') = Some p \<and> p < n \<longrightarrow>
                    Children (heap st' ! p) = Children (heap st ! p) @ [n])"
    if "?stk \<noteq> []"
  proof -
    from that obtain parent rest where stk: "?stk = parent # rest"
      by (cases ?stk) auto
    show ?thesis
      using assms(6,7) pl stk unfolding sl nameRecord_def cur_def n_def
      by (cases parent) (auto simp: Let_def Peek_def nth_append)
  qed
  from 1 2 3 show ?thesis by simp
qed

theorem scanLine_pops_current_depth_minus_one_witness:
  \<open>(\<exists>st'. scanLine ''SnapshotName-2="e"'' treeParser = Inr st'
      \<and> parentStack st' = [Some 0] \<and> node st' = Some 4
      \<and> Children (heap st' ! 0) = [1, 4])
   \<and> (\<exists>st'. scanLine ''SnapshotName-1-2="e"'' treeParser = Inr st'
      \<and> parentStack st' = [Some 0] \<and> node st' = Some 4
      \<and> Children (heap st' ! 0) = [1, 4])
   \<and> scanLine ''SnapshotName-3="e"'' siblingParser
      = Inl (Panic ''interface conversion: interface is nil, not *VBoxSnapshot'')\<close>
proof (intro conjI)
  show \<open>\<exists>st'. scanLine ''SnapshotName-2="e"'' treeParser = Inr st'
      \<and> parentStack st' = [Some 0] \<and> node st' = Some 4
      \<and> Children (heap st' ! 0) = [1, 4]\<close>
    using scanLine_pops_current_depth_minus_one
      [OF pop_examples(1) pop_examples(2) pop_examples(3) pop_examples(9) pop_examples(4)]
    by (simp add: treeParser_fields) (auto simp: numeral_3_eq_3 Pop_def treeParser_fields)
next
  show \<open>\<exists>st'. scanLine ''SnapshotName-1-2="e"'' treeParser = Inr st'
      \<and> parentStack st' = [Some 0] \<and> node st' = Some 4
      \<and> Children (heap st' ! 0) = [1, 4]\<close>
    using scanLine_pops_current_depth_minus_one
      [OF pop_examples(5) pop_examples(6) pop_examples(7) pop_examples(9) pop_examples(8)]
    by (simp add: treeParser_fields) (auto simp: numeral_3_eq_3 Pop_def treeParser_fields)
next
  show \<open>scanLine ''SnapshotName-3="e"'' siblingParser
      = Inl (Panic ''interface conversion: interface is nil, not *VBoxSnapshot'')\<close>
    using scanLine_pops_current_depth_minus_one
      [OF sibling_examples(1) sibling_examples(2) sibling_examples(3) sibling_examples(4)
          sibling_examples(5)]
    by (simp add: sibling_examples(6,7) numeral_2_eq_2 Pop_def)
qed

text \<open>
  What a \<^verbatim>\<open>Name\<close> record after the first does to the variables of the loop: the new
  node becomes the current node, and the indicator is taken from the record only if the
  record is deeper than the indicator tracked so far.
\<close>

lemma scanLine_Name_indicator:
  assumes "0 < Index l ''=''"
    and "\<not> HasPrefix l ''Current''"
    and "FindStringSubmatch SnapshotNamePartsRe l = Some [m0, ''Name'', path, leaf, val]"
    and "rootNode st \<noteq> None"
    and "scanLine l st = Inr st'"
  shows "currentIndicator st' =
           (if Count (currentIndicator st) (CHR ''-'') < Count path (CHR ''-'')
            then path else currentIndicator st)
       \<and> node st' = Some (length (heap st))"
proof -
  have "nameRecord path val st = Inr st'"
    using assms(1,2,3,5) by (simp add: scanLine_def)
  then show ?thesis
    using assms(4)
    by (auto simp: nameRecord_def Let_def split: if_splits option.splits)
qed

text \<open>
  Claim C2 at a failing input.  After the listing \<open>siblingLines\<close>, whose last record
  \<^verbatim>\<open>SnapshotName-2\<close> has depth 1, the indicator the parser tracks is still \<open>-1-1\<close>,
  of depth 2: \<open>currentIndicator\<close> is assigned only where the path gets deeper.  The next
  sibling \<^verbatim>\<open>SnapshotName-3\<close> then pops the last ancestor, and the parser panics.
\<close>

theorem parseLines_stale_indicator:
  \<open>(case parseLines siblingLines initParser of
       Inl p \<Rightarrow> None
     | Inr st \<Rightarrow> Some (currentIndicator st, Count (currentIndicator st) (CHR ''-''), node st))
      = Some (''-1-1'', 2, Some 3)
   \<and> Count ''-2'' (CHR ''-'') = 1
   \<and> parseLines (siblingLines @ [''SnapshotName-3="e"'']) initParser
      = Inl (Panic ''interface conversion: interface is nil, not *VBoxSnapshot'')\<close>
  by code_simp

end
